theory Spec2Isabelle
  imports Complex_Main "HOL-Library.Word" "HOL-Library.AList" "HOL-Library.Signed_Division"
    "HOL-Library.Log_Nat"
begin

section \<open>The queue manager of amboy's management package\<close>

text \<open>
  A shallow embedding of \<^verbatim>\<open>vendor/github.com/mongodb/amboy/management/queue.go\<close>:
  the \<^verbatim>\<open>queueManager\<close>, which answers management queries by ranging over
  \<^verbatim>\<open>amboy.Queue.JobStats\<close> and \<^verbatim>\<open>amboy.Queue.Results\<close> and resolving jobs with
  \<^verbatim>\<open>amboy.Queue.Get\<close>.

  Conventions of the embedding.
  \<^item> Go's \<^verbatim>\<open>int\<close>, \<^verbatim>\<open>int64\<close> and \<^verbatim>\<open>time.Duration\<close> are 64-bit words read as
    two's complement: \<open>+\<close> wraps, comparisons are the signed ones, division truncates
    towards zero and panics on a zero divisor.
  \<^item> A \<^verbatim>\<open>time.Time\<close> is an instant, counted in nanoseconds on the integer line.
  \<^item> A Go \<^verbatim>\<open>map[string]T\<close> is an association list with distinct keys; reading a
    missing key gives the zero value of \<open>T\<close>. Go leaves the order of \<^verbatim>\<open>range\<close> over a
    map unspecified; the list order stands for one such order, and the properties
    proved below do not depend on it.
  \<^item> A \<^verbatim>\<open>for x := range ch\<close> over a channel is a recursion over the list of values the
    channel delivers during the pass. Cancellation through the context is not modelled.
  \<^item> Every call of \<^verbatim>\<open>time.Now\<close> reads the clock anew. The clock is a function
    \<open>clk\<close>: \<open>clk i k\<close> is what the \<open>k\<close>-th call of \<^verbatim>\<open>time.Now\<close> made during the \<open>i\<close>-th
    iteration of the pass returns.
  \<^item> An error return and a runtime panic are values \<open>Inl e\<close> of a sum type.
\<close>

subsection \<open>Integers, instants and durations\<close>

type_synonym int64 = "64 word"
type_synonym time_Time = int
type_synonym time_Duration = "64 word"
type_synonym clock = "nat \<Rightarrow> nat \<Rightarrow> time_Time"

definition time_Second :: time_Duration where
  "time_Second = 1000000000"

definition minDuration :: time_Duration where
  "minDuration = word_of_int (- (2 ^ 63))"

definition maxDuration :: time_Duration where
  "maxDuration = word_of_int (2 ^ 63 - 1)"

text \<open>\<^verbatim>\<open>t.Sub(u)\<close> of package time: the difference \<open>t - u\<close>, saturated to the least and
  the greatest \<^verbatim>\<open>Duration\<close> when it does not fit 64 bits.\<close>

definition time_Sub :: "time_Time \<Rightarrow> time_Time \<Rightarrow> time_Duration" where
  "time_Sub t u =
     (let d = t - u
      in if d < - (2 ^ 63) then minDuration
         else if 2 ^ 63 - 1 < d then maxDuration
         else word_of_int d)"

text \<open>\<^verbatim>\<open>time.Since(t)\<close> is \<^verbatim>\<open>time.Now().Sub(t)\<close>; \<open>now\<close> is the reading of the clock.\<close>

definition time_Since :: "time_Time \<Rightarrow> time_Time \<Rightarrow> time_Duration" where
  "time_Since now t = time_Sub now t"

text \<open>Go's \<^verbatim>\<open>/\<close> on 64-bit integers with a divisor that is not zero: the quotient
  truncated towards zero, wrapped to 64 bits.\<close>

definition int64_quo :: "int64 \<Rightarrow> int64 \<Rightarrow> int64" where
  "int64_quo a b = word_of_int (sint a sdiv sint b)"

text \<open>The conversion \<^verbatim>\<open>float64(x)\<close> of a 64-bit integer: the nearest number with a
  significand of 53 bits, ties to the even significand. Integers of magnitude up to
  \<open>2 ^ 53\<close> convert exactly.\<close>

definition float64 :: "int64 \<Rightarrow> real" where
  "float64 x =
     (let a = \<bar>sint x\<bar>
      in if a < 2 ^ 53 then of_int (sint x)
         else
           let e = nat (bitlen a - 53);
               q = a div 2 ^ e;
               r = a mod 2 ^ e;
               h = 2 ^ e div 2;
               q' = (if h < r \<or> (r = h \<and> odd q) then q + 1 else q)
           in of_int (sgn (sint x) * (q' * 2 ^ e)))"

subsection \<open>Jobs and the queue\<close>

text \<open>\<^verbatim>\<open>amboy.JobStatusInfo\<close>, \<^verbatim>\<open>amboy.JobTimeInfo\<close>, \<^verbatim>\<open>amboy.JobType\<close> and the
  accessors of the interface \<^verbatim>\<open>amboy.Job\<close> that the manager calls.\<close>

record JobStatusInfo =
  ID :: string
  Completed :: bool
  InProgress :: bool
  ModificationTime :: time_Time
  ErrorCount :: int64
  Errors :: "string list"

record JobTimeInfo =
  Created :: time_Time
  Start :: time_Time
  End :: time_Time

record JobType =
  Name :: string
  Version :: int64

record Job =
  Type :: JobType
  Status :: JobStatusInfo
  TimeInfo :: JobTimeInfo

text \<open>The interface \<^verbatim>\<open>amboy.Queue\<close>, as far as the manager uses it, over a queue state
  \<open>'s\<close>. \<open>JobStats\<close> and \<open>Results\<close> give the values their channels deliver in one pass.
  \<open>Get\<close> returns \<^verbatim>\<open>(job, ok)\<close>: \<open>Some job\<close> stands for \<^verbatim>\<open>(job, true)\<close> and \<open>None\<close> for
  \<^verbatim>\<open>(nil, false)\<close>. \<open>Complete\<close> takes the handle it is given, which is \<open>None\<close> when the
  caller passes a nil job, and changes the queue.\<close>

record 's Queue =
  JobStats :: "'s \<Rightarrow> JobStatusInfo list"
  Results :: "'s \<Rightarrow> Job list"
  Get :: "'s \<Rightarrow> string \<Rightarrow> Job option"
  Complete :: "Job option \<Rightarrow> 's \<Rightarrow> 's"

record 's queueManager =
  queue :: "'s Queue"

definition NewQueueManager :: "'s Queue \<Rightarrow> 's queueManager" where
  "NewQueueManager q = \<lparr>queue = q\<rparr>"

subsection \<open>Errors\<close>

text \<open>The errors and panics of queue.go, one constructor for each place they come from:
  \<^item> \<open>InvalidFilter f\<close>: the error of \<^verbatim>\<open>f.Validate()\<close>, returned through
    \<^verbatim>\<open>errors.WithStack\<close>;
  \<^item> \<open>WindowTooShort\<close>: \<^verbatim>\<open>errors.New("must specify windows greater than one second")\<close>;
  \<^item> \<open>InvalidRuntimeFilter\<close>: \<^verbatim>\<open>errors.New("invalid job runtime filter")\<close>;
  \<^item> \<open>InvalidStatusFilter\<close>: \<^verbatim>\<open>errors.New("invalid job status filter")\<close>;
  \<^item> \<open>NotSupported\<close>: \<^verbatim>\<open>errors.New("operation is not supported")\<close>;
  \<^item> \<open>CannotRecover name\<close>: \<^verbatim>\<open>errors.Errorf("cannot recover job with name '%s'", name)\<close>;
  \<^item> \<open>NilDereference\<close>: the panic of a method call on a nil \<^verbatim>\<open>amboy.Job\<close>;
  \<^item> \<open>DivideByZero\<close>: the panic of an integer division by zero.\<close>

datatype error =
    InvalidFilter string
  | WindowTooShort
  | InvalidRuntimeFilter
  | InvalidStatusFilter
  | NotSupported
  | CannotRecover string
  | NilDereference
  | DivideByZero

text \<open>Modelled from the spec: queue.go returns plain error values and declares no kinds
  of error. Section 7 of the specification sorts the errors into \<open>ValidationError\<close> (an
  unrecognised filter value, a window of at most one second) and \<open>NotFoundError\<close> (the
  named job is absent), which only \<^verbatim>\<open>CompleteJob\<close> returns; a panic is neither.\<close>

fun isValidationError :: "error \<Rightarrow> bool" where
  "isValidationError (InvalidFilter f) = True"
| "isValidationError WindowTooShort = True"
| "isValidationError InvalidRuntimeFilter = True"
| "isValidationError InvalidStatusFilter = True"
| "isValidationError NotSupported = True"
| "isValidationError (CannotRecover n) = False"
| "isValidationError NilDereference = False"
| "isValidationError DivideByZero = False"

text \<open>Modelled from the spec: section 7, \<open>NotFoundError\<close>, as above.\<close>

fun isNotFoundError :: "error \<Rightarrow> bool" where
  "isNotFoundError (CannotRecover n) = True"
| "isNotFoundError e = False"

subsection \<open>Filters\<close>

text \<open>Modelled from the spec: the filter types \<^verbatim>\<open>CounterFilter\<close>, \<^verbatim>\<open>RuntimeFilter\<close> and
  \<^verbatim>\<open>ErrorFilter\<close> and their constants are declared in the management package outside
  queue.go. They are string types (queue.go converts them with \<^verbatim>\<open>string(f)\<close>), and
  sections 2 and 4 of the specification name the constants of each. The string values
  are those of amboy's management package; nothing below depends on them beyond their
  being distinct, which the \<^verbatim>\<open>switch\<close> statements of queue.go need to compile. The
  constant \<^verbatim>\<open>InProgress\<close> has a suffix here, the name being taken by the field of
  \<^verbatim>\<open>JobStatusInfo\<close>.\<close>

type_synonym CounterFilter = string
type_synonym RuntimeFilter = string
type_synonym ErrorFilter = string

definition InProgress_filter :: CounterFilter where
  "InProgress_filter = ''in-progress''"

definition Pending :: CounterFilter where
  "Pending = ''pending''"

definition Stale :: CounterFilter where
  "Stale = ''stale''"

definition Duration :: RuntimeFilter where
  "Duration = ''completed''"

definition Latency :: RuntimeFilter where
  "Latency = ''latency''"

definition Running :: RuntimeFilter where
  "Running = ''running''"

definition UniqueErrors :: ErrorFilter where
  "UniqueErrors = ''unique-errors''"

definition AllErrors :: ErrorFilter where
  "AllErrors = ''all-errors''"

definition StatsOnly :: ErrorFilter where
  "StatsOnly = ''stats-only''"

text \<open>Modelled from the spec: \<^verbatim>\<open>CounterFilter.Validate\<close> is declared outside queue.go.
  Section 2: the validator "checks that a requested filter value belongs to the
  enumerated set for the operation being invoked; rejects anything else"; section 4.1:
  the set is InProgress, Pending, Stale. \<open>None\<close> is the nil error.\<close>

definition CounterFilter_Validate :: "CounterFilter \<Rightarrow> error option" where
  "CounterFilter_Validate f =
     (if f = InProgress_filter \<or> f = Pending \<or> f = Stale then None
      else Some (InvalidFilter f))"

text \<open>Modelled from the spec: \<^verbatim>\<open>RuntimeFilter.Validate\<close> is declared outside queue.go.
  Section 4.2: the set is Duration, Latency, Running.\<close>

definition RuntimeFilter_Validate :: "RuntimeFilter \<Rightarrow> error option" where
  "RuntimeFilter_Validate f =
     (if f = Duration \<or> f = Latency \<or> f = Running then None
      else Some (InvalidFilter f))"

text \<open>Modelled from the spec: \<^verbatim>\<open>ErrorFilter.Validate\<close> is declared outside queue.go.
  Section 4.4: the set is UniqueErrors, AllErrors, StatsOnly.\<close>

definition ErrorFilter_Validate :: "ErrorFilter \<Rightarrow> error option" where
  "ErrorFilter_Validate f =
     (if f = UniqueErrors \<or> f = AllErrors \<or> f = StatsOnly then None
      else Some (InvalidFilter f))"

subsection \<open>Reports\<close>

text \<open>The report types of the management package, declared outside queue.go, with the
  fields queue.go sets. A field carries the name of its struct, since Go's field names
  repeat from one struct to the next.\<close>

record JobCounters =
  JobCounters_ID :: string
  JobCounters_Count :: int64

record JobStatusReport =
  JobStatusReport_Filter :: string
  JobStatusReport_Stats :: "JobCounters list"

record JobRuntimes =
  JobRuntimes_ID :: string
  JobRuntimes_Duration :: time_Duration

record JobRuntimeReport =
  JobRuntimeReport_Filter :: string
  JobRuntimeReport_Period :: time_Duration
  JobRuntimeReport_Stats :: "JobRuntimes list"

record JobReportIDs =
  JobReportIDs_Filter :: string
  JobReportIDs_Type :: string
  JobReportIDs_IDs :: "string list"

record JobErrorsForType =
  JobErrorsForType_ID :: string
  JobErrorsForType_Count :: int64
  JobErrorsForType_Total :: int64
  JobErrorsForType_Average :: real
  JobErrorsForType_Errors :: "string list"

record JobErrorsReport =
  JobErrorsReport_Period :: time_Duration
  JobErrorsReport_FilteredByType :: bool
  JobErrorsReport_Data :: "JobErrorsForType list"

text \<open>The zero value of \<^verbatim>\<open>JobErrorsForType\<close>, which reading a missing key of the
  collector gives.\<close>

definition JobErrorsForType_zero :: JobErrorsForType where
  "JobErrorsForType_zero =
     \<lparr>JobErrorsForType_ID = [], JobErrorsForType_Count = 0, JobErrorsForType_Total = 0,
      JobErrorsForType_Average = 0, JobErrorsForType_Errors = []\<rparr>"

subsection \<open>Maps and loops\<close>

text \<open>\<^verbatim>\<open>m[k]\<close> on a Go map, where \<open>z\<close> is the zero value of the element type. The
  assignment \<^verbatim>\<open>m[k] = v\<close> is \<open>AList.update k v m\<close>.\<close>

definition map_index :: "('k \<times> 'v) list \<Rightarrow> 'v \<Rightarrow> 'k \<Rightarrow> 'v" where
  "map_index m z k = (case map_of m k of None \<Rightarrow> z | Some v \<Rightarrow> v)"

text \<open>\<^verbatim>\<open>for x := range ch { body }\<close>: the body sees the number \<open>i\<close> of the iteration
  (to read the clock), the value \<open>x\<close> and the variables \<open>acc\<close> it updates. A
  \<^verbatim>\<open>continue\<close> is a body that returns \<open>acc\<close> as it is.\<close>

fun for_range :: "(nat \<Rightarrow> 'a \<Rightarrow> 'b \<Rightarrow> 'b) \<Rightarrow> nat \<Rightarrow> 'a list \<Rightarrow> 'b \<Rightarrow> 'b" where
  "for_range body i [] acc = acc"
| "for_range body i (x # xs) acc = for_range body (Suc i) xs (body i x acc)"

text \<open>The same loop with a body that may panic; the panic ends the loop.\<close>

fun for_range_err ::
  "(nat \<Rightarrow> 'a \<Rightarrow> 'b \<Rightarrow> error + 'b) \<Rightarrow> nat \<Rightarrow> 'a list \<Rightarrow> 'b \<Rightarrow> error + 'b" where
  "for_range_err body i [] acc = Inr acc"
| "for_range_err body i (x # xs) acc =
     (case body i x acc of
        Inl e \<Rightarrow> Inl e
      | Inr acc' \<Rightarrow> for_range_err body (Suc i) xs acc')"

subsection \<open>JobStatus\<close>

text \<open>\<^verbatim>\<open>counters[job.Type().Name]++\<close>\<close>

definition counters_incr :: "(string \<times> int64) list \<Rightarrow> string \<Rightarrow> (string \<times> int64) list" where
  "counters_incr counters jt = AList.update jt (map_index counters 0 jt + 1) counters"

text \<open>The bodies of the three loops of \<^verbatim>\<open>JobStatus\<close>. \<open>LockTimeout\<close> is
  \<^verbatim>\<open>amboy.LockTimeout\<close>, declared outside queue.go and taken as a parameter.\<close>

definition JobStatus_InProgress ::
  "'s queueManager \<Rightarrow> 's \<Rightarrow> nat \<Rightarrow> JobStatusInfo \<Rightarrow> (string \<times> int64) list
   \<Rightarrow> (string \<times> int64) list" where
  "JobStatus_InProgress m s i stat counters =
     (if InProgress stat then
        (case Get (queue m) s (ID stat) of
           Some job \<Rightarrow> counters_incr counters (Name (Type job))
         | None \<Rightarrow> counters)
      else counters)"

definition JobStatus_Pending ::
  "'s queueManager \<Rightarrow> 's \<Rightarrow> nat \<Rightarrow> JobStatusInfo \<Rightarrow> (string \<times> int64) list
   \<Rightarrow> (string \<times> int64) list" where
  "JobStatus_Pending m s i stat counters =
     (if \<not> Completed stat \<and> \<not> InProgress stat then
        (case Get (queue m) s (ID stat) of
           Some job \<Rightarrow> counters_incr counters (Name (Type job))
         | None \<Rightarrow> counters)
      else counters)"

definition JobStatus_Stale ::
  "'s queueManager \<Rightarrow> 's \<Rightarrow> clock \<Rightarrow> time_Duration \<Rightarrow> nat \<Rightarrow> JobStatusInfo
   \<Rightarrow> (string \<times> int64) list \<Rightarrow> (string \<times> int64) list" where
  "JobStatus_Stale m s clk LockTimeout i stat counters =
     (if \<not> Completed stat \<and> InProgress stat
         \<and> LockTimeout <s time_Since (clk i 0) (ModificationTime stat) then
        (case Get (queue m) s (ID stat) of
           Some job \<Rightarrow> counters_incr counters (Name (Type job))
         | None \<Rightarrow> counters)
      else counters)"

definition JobStatus ::
  "'s queueManager \<Rightarrow> 's \<Rightarrow> clock \<Rightarrow> time_Duration \<Rightarrow> CounterFilter
   \<Rightarrow> error + JobStatusReport" where
  "JobStatus m s clk LockTimeout f =
     (case CounterFilter_Validate f of
        Some err \<Rightarrow> Inl err
      | None \<Rightarrow>
          let counters =
                (if f = InProgress_filter then
                   for_range (JobStatus_InProgress m s) 0 (JobStats (queue m) s) []
                 else if f = Pending then
                   for_range (JobStatus_Pending m s) 0 (JobStats (queue m) s) []
                 else if f = Stale then
                   for_range (JobStatus_Stale m s clk LockTimeout) 0 (JobStats (queue m) s) []
                 else []);
              out_Stats =
                map (\<lambda>(jt, num). \<lparr>JobCounters_ID = jt, JobCounters_Count = num\<rparr>) counters
          in Inr \<lparr>JobStatusReport_Filter = f, JobStatusReport_Stats = out_Stats\<rparr>)"

subsection \<open>RecentTiming\<close>

text \<open>\<^verbatim>\<open>counters[jt] = append(counters[jt], d)\<close>\<close>

definition counters_append ::
  "(string \<times> time_Duration list) list \<Rightarrow> string \<Rightarrow> time_Duration \<Rightarrow> (string \<times> time_Duration list) list" where
  "counters_append counters jt d = AList.update jt (map_index counters [] jt @ [d]) counters"

text \<open>The bodies of the three loops of \<^verbatim>\<open>RecentTiming\<close>; the first ranges over
  \<^verbatim>\<open>Results\<close>, the other two over \<^verbatim>\<open>JobStats\<close>.\<close>

definition RecentTiming_Duration ::
  "clock \<Rightarrow> time_Duration \<Rightarrow> nat \<Rightarrow> Job \<Rightarrow> (string \<times> time_Duration list) list
   \<Rightarrow> (string \<times> time_Duration list) list" where
  "RecentTiming_Duration clk window i job counters =
     (let stat = Status job; ti = TimeInfo job
      in if Completed stat \<and> time_Since (clk i 0) (End ti) <s window then
           counters_append counters (Name (Type job)) (time_Sub (End ti) (Start ti))
         else counters)"

definition RecentTiming_Latency ::
  "'s queueManager \<Rightarrow> 's \<Rightarrow> clock \<Rightarrow> time_Duration \<Rightarrow> nat \<Rightarrow> JobStatusInfo
   \<Rightarrow> (string \<times> time_Duration list) list \<Rightarrow> (string \<times> time_Duration list) list" where
  "RecentTiming_Latency m s clk window i stat counters =
     (case Get (queue m) s (ID stat) of
        None \<Rightarrow> counters
      | Some job \<Rightarrow>
          let ti = TimeInfo job
          in if \<not> Completed stat \<and> time_Since (clk i 0) (End ti) <s window then
               counters_append counters (Name (Type job)) (time_Since (clk i 1) (Created ti))
             else counters)"

definition RecentTiming_Running ::
  "'s queueManager \<Rightarrow> 's \<Rightarrow> clock \<Rightarrow> nat \<Rightarrow> JobStatusInfo
   \<Rightarrow> (string \<times> time_Duration list) list \<Rightarrow> (string \<times> time_Duration list) list" where
  "RecentTiming_Running m s clk i stat counters =
     (if \<not> Completed stat \<and> InProgress stat then
        (case Get (queue m) s (ID stat) of
           None \<Rightarrow> counters
         | Some job \<Rightarrow>
             let ti = TimeInfo job
             in counters_append counters (Name (Type job)) (time_Since (clk i 0) (Start ti)))
      else counters)"

text \<open>The pass of \<^verbatim>\<open>RecentTiming\<close> that fills \<open>counters\<close>, for a filter that passed
  validation; the \<^verbatim>\<open>default\<close> case of the switch returns an error.\<close>

definition RecentTiming_counters ::
  "'s queueManager \<Rightarrow> 's \<Rightarrow> clock \<Rightarrow> time_Duration \<Rightarrow> RuntimeFilter
   \<Rightarrow> error + (string \<times> time_Duration list) list" where
  "RecentTiming_counters m s clk window f =
     (if f = Duration then
        Inr (for_range (RecentTiming_Duration clk window) 0 (Results (queue m) s) [])
      else if f = Latency then
        Inr (for_range (RecentTiming_Latency m s clk window) 0 (JobStats (queue m) s) [])
      else if f = Running then
        Inr (for_range (RecentTiming_Running m s clk) 0 (JobStats (queue m) s) [])
      else Inl InvalidRuntimeFilter)"

text \<open>The loop that renders \<open>counters\<close>: the durations of a type are summed and the sum
  is divided by their number; the division panics when the number is zero.\<close>

fun RecentTiming_runtimes ::
  "JobRuntimes list \<Rightarrow> (string \<times> time_Duration list) list \<Rightarrow> error + JobRuntimes list" where
  "RecentTiming_runtimes runtimes [] = Inr runtimes"
| "RecentTiming_runtimes runtimes ((k, v) # rest) =
     (let total = foldl (+) 0 v
      in if (of_nat (length v) :: time_Duration) = 0 then Inl DivideByZero
         else RecentTiming_runtimes
                (runtimes @ [\<lparr>JobRuntimes_ID = k,
                              JobRuntimes_Duration = int64_quo total (of_nat (length v))\<rparr>])
                rest)"

definition RecentTiming ::
  "'s queueManager \<Rightarrow> 's \<Rightarrow> clock \<Rightarrow> time_Duration \<Rightarrow> RuntimeFilter
   \<Rightarrow> error + JobRuntimeReport" where
  "RecentTiming m s clk window f =
     (case RuntimeFilter_Validate f of
        Some err \<Rightarrow> Inl err
      | None \<Rightarrow>
          if window \<le>s time_Second then Inl WindowTooShort
          else
            (case RecentTiming_counters m s clk window f of
               Inl e \<Rightarrow> Inl e
             | Inr counters \<Rightarrow>
                 (case RecentTiming_runtimes [] counters of
                    Inl e \<Rightarrow> Inl e
                  | Inr runtimes \<Rightarrow>
                      Inr \<lparr>JobRuntimeReport_Filter = f, JobRuntimeReport_Period = window,
                           JobRuntimeReport_Stats = runtimes\<rparr>)))"

subsection \<open>JobIDsByState\<close>

text \<open>The type restriction at the head of each loop of \<^verbatim>\<open>JobIDsByState\<close>:
  \<^verbatim>\<open>if jobType != "" { job, ok := m.queue.Get(ctx, stat.ID);
  if !ok && job.Type().Name != jobType { continue } }\<close>.
  The result \<open>Inr True\<close> stands for the \<^verbatim>\<open>continue\<close>. When the lookup succeeds,
  \<^verbatim>\<open>!ok\<close> is false and the conjunction is false without looking at the type. When the
  lookup fails, \<^verbatim>\<open>!ok\<close> is true and \<^verbatim>\<open>job.Type()\<close> is called on the nil job, which
  panics.\<close>

definition JobIDsByState_skip ::
  "'s queueManager \<Rightarrow> 's \<Rightarrow> string \<Rightarrow> JobStatusInfo \<Rightarrow> error + bool" where
  "JobIDsByState_skip m s jobType stat =
     (if jobType \<noteq> [] then
        (case Get (queue m) s (ID stat) of
           Some job \<Rightarrow> Inr (\<not> True \<and> Name (Type job) \<noteq> jobType)
         | None \<Rightarrow> Inl NilDereference)
      else Inr False)"

definition JobIDsByState_InProgress ::
  "'s queueManager \<Rightarrow> 's \<Rightarrow> string \<Rightarrow> nat \<Rightarrow> JobStatusInfo \<Rightarrow> string list
   \<Rightarrow> error + string list" where
  "JobIDsByState_InProgress m s jobType i stat ids =
     (case JobIDsByState_skip m s jobType stat of
        Inl e \<Rightarrow> Inl e
      | Inr skip \<Rightarrow>
          if skip then Inr ids
          else if InProgress stat then Inr (ids @ [ID stat])
          else Inr ids)"

definition JobIDsByState_Pending ::
  "'s queueManager \<Rightarrow> 's \<Rightarrow> string \<Rightarrow> nat \<Rightarrow> JobStatusInfo \<Rightarrow> string list
   \<Rightarrow> error + string list" where
  "JobIDsByState_Pending m s jobType i stat ids =
     (case JobIDsByState_skip m s jobType stat of
        Inl e \<Rightarrow> Inl e
      | Inr skip \<Rightarrow>
          if skip then Inr ids
          else if \<not> Completed stat \<and> \<not> InProgress stat then Inr (ids @ [ID stat])
          else Inr ids)"

definition JobIDsByState_Stale ::
  "'s queueManager \<Rightarrow> 's \<Rightarrow> clock \<Rightarrow> time_Duration \<Rightarrow> string \<Rightarrow> nat \<Rightarrow> JobStatusInfo
   \<Rightarrow> string list \<Rightarrow> error + string list" where
  "JobIDsByState_Stale m s clk LockTimeout jobType i stat ids =
     (case JobIDsByState_skip m s jobType stat of
        Inl e \<Rightarrow> Inl e
      | Inr skip \<Rightarrow>
          if skip then Inr ids
          else if \<not> Completed stat \<and> InProgress stat
                  \<and> LockTimeout <s time_Since (clk i 0) (ModificationTime stat)
               then Inr (ids @ [ID stat])
          else Inr ids)"

definition JobIDsByState ::
  "'s queueManager \<Rightarrow> 's \<Rightarrow> clock \<Rightarrow> time_Duration \<Rightarrow> string \<Rightarrow> CounterFilter
   \<Rightarrow> error + JobReportIDs" where
  "JobIDsByState m s clk LockTimeout jobType f =
     (case CounterFilter_Validate f of
        Some err \<Rightarrow> Inl err
      | None \<Rightarrow>
          (case (if f = InProgress_filter then
                   for_range_err (JobIDsByState_InProgress m s jobType) 0
                     (JobStats (queue m) s) []
                 else if f = Pending then
                   for_range_err (JobIDsByState_Pending m s jobType) 0
                     (JobStats (queue m) s) []
                 else if f = Stale then
                   for_range_err (JobIDsByState_Stale m s clk LockTimeout jobType) 0
                     (JobStats (queue m) s) []
                 else Inl InvalidStatusFilter) of
             Inl e \<Rightarrow> Inl e
           | Inr ids \<Rightarrow>
               Inr \<lparr>JobReportIDs_Filter = f, JobReportIDs_Type = jobType,
                    JobReportIDs_IDs = ids\<rparr>))"

subsection \<open>RecentErrors and RecentJobErrors\<close>

text \<open>The statements that update the bucket \<^verbatim>\<open>val\<close> of a type:
  \<^verbatim>\<open>val.Count++; val.Total += stat.ErrorCount;
  val.Errors = append(val.Errors, stat.Errors...)\<close>.
  The loop of \<^verbatim>\<open>StatsOnly\<close> has no \<^verbatim>\<open>append\<close>; \<open>keep\<close> tells the two apart.\<close>

definition bucket_add :: "bool \<Rightarrow> JobErrorsForType \<Rightarrow> JobStatusInfo \<Rightarrow> JobErrorsForType" where
  "bucket_add keep val stat =
     (let val = val\<lparr>JobErrorsForType_Count := JobErrorsForType_Count val + 1\<rparr>;
          val = val\<lparr>JobErrorsForType_Total := JobErrorsForType_Total val + ErrorCount stat\<rparr>;
          val = (if keep
                 then val\<lparr>JobErrorsForType_Errors := JobErrorsForType_Errors val @ Errors stat\<rparr>
                 else val)
      in val)"

text \<open>Around them: \<^verbatim>\<open>val := collector[jt]; ...; collector[jt] = val\<close>.\<close>

definition collector_add ::
  "bool \<Rightarrow> (string \<times> JobErrorsForType) list \<Rightarrow> string \<Rightarrow> JobStatusInfo
   \<Rightarrow> (string \<times> JobErrorsForType) list" where
  "collector_add keep collector jt stat =
     (let val = map_index collector JobErrorsForType_zero jt
      in AList.update jt (bucket_add keep val stat) collector)"

text \<open>The body of the loops of \<^verbatim>\<open>RecentErrors\<close>. The source writes the loop three
  times, once for each filter; the loops of \<^verbatim>\<open>UniqueErrors\<close> and \<^verbatim>\<open>AllErrors\<close> are
  the same text (\<open>keep\<close> true), the loop of \<^verbatim>\<open>StatsOnly\<close> leaves the \<^verbatim>\<open>append\<close> out.\<close>

definition RecentErrors_body ::
  "bool \<Rightarrow> 's queueManager \<Rightarrow> 's \<Rightarrow> clock \<Rightarrow> time_Duration \<Rightarrow> nat \<Rightarrow> JobStatusInfo
   \<Rightarrow> (string \<times> JobErrorsForType) list \<Rightarrow> (string \<times> JobErrorsForType) list" where
  "RecentErrors_body keep m s clk window i stat collector =
     (if Completed stat \<and> 0 <s ErrorCount stat then
        (case Get (queue m) s (ID stat) of
           None \<Rightarrow> collector
         | Some job \<Rightarrow>
             let ti = TimeInfo job
             in if window <s time_Since (clk i 0) (End ti) then collector
                else collector_add keep collector (Name (Type job)) stat)
      else collector)"

text \<open>The body of the loops of \<^verbatim>\<open>RecentJobErrors\<close>: as above, with the test of the
  job's type, and with \<open>jobType\<close> as the key of the bucket.\<close>

definition RecentJobErrors_body ::
  "bool \<Rightarrow> 's queueManager \<Rightarrow> 's \<Rightarrow> clock \<Rightarrow> string \<Rightarrow> time_Duration \<Rightarrow> nat \<Rightarrow> JobStatusInfo
   \<Rightarrow> (string \<times> JobErrorsForType) list \<Rightarrow> (string \<times> JobErrorsForType) list" where
  "RecentJobErrors_body keep m s clk jobType window i stat collector =
     (if Completed stat \<and> 0 <s ErrorCount stat then
        (case Get (queue m) s (ID stat) of
           None \<Rightarrow> collector
         | Some job \<Rightarrow>
             if Name (Type job) \<noteq> jobType then collector
             else
               let ti = TimeInfo job
               in if window <s time_Since (clk i 0) (End ti) then collector
                  else collector_add keep collector jobType stat)
      else collector)"

text \<open>The second loop of the \<^verbatim>\<open>UniqueErrors\<close> case: the errors of each bucket go
  through a set (\<^verbatim>\<open>map[string]struct{}\<close>) and come back in the order Go ranges over
  it; \<open>remdups\<close> stands for one such order.\<close>

definition unique_errors ::
  "(string \<times> JobErrorsForType) list \<Rightarrow> (string \<times> JobErrorsForType) list" where
  "unique_errors collector =
     map (\<lambda>(k, v). (k, v\<lparr>JobErrorsForType_Errors := remdups (JobErrorsForType_Errors v)\<rparr>))
       collector"

text \<open>The switch of \<^verbatim>\<open>RecentErrors\<close> and of \<^verbatim>\<open>RecentJobErrors\<close>: the collector before
  the reports are rendered.\<close>

definition RecentErrors_collector ::
  "'s queueManager \<Rightarrow> 's \<Rightarrow> clock \<Rightarrow> time_Duration \<Rightarrow> ErrorFilter
   \<Rightarrow> error + (string \<times> JobErrorsForType) list" where
  "RecentErrors_collector m s clk window f =
     (if f = UniqueErrors then
        Inr (unique_errors
               (for_range (RecentErrors_body True m s clk window) 0 (JobStats (queue m) s) []))
      else if f = AllErrors then
        Inr (for_range (RecentErrors_body True m s clk window) 0 (JobStats (queue m) s) [])
      else if f = StatsOnly then
        Inr (for_range (RecentErrors_body False m s clk window) 0 (JobStats (queue m) s) [])
      else Inl NotSupported)"

definition RecentJobErrors_collector ::
  "'s queueManager \<Rightarrow> 's \<Rightarrow> clock \<Rightarrow> string \<Rightarrow> time_Duration \<Rightarrow> ErrorFilter
   \<Rightarrow> error + (string \<times> JobErrorsForType) list" where
  "RecentJobErrors_collector m s clk jobType window f =
     (if f = UniqueErrors then
        Inr (unique_errors
               (for_range (RecentJobErrors_body True m s clk jobType window) 0
                  (JobStats (queue m) s) []))
      else if f = AllErrors then
        Inr (for_range (RecentJobErrors_body True m s clk jobType window) 0
               (JobStats (queue m) s) [])
      else if f = StatsOnly then
        Inr (for_range (RecentJobErrors_body False m s clk jobType window) 0
               (JobStats (queue m) s) [])
      else Inl NotSupported)"

text \<open>The loop that renders the collector:
  \<^verbatim>\<open>v.ID = k; v.Average = float64(v.Total / v.Count); reports = append(reports, v)\<close>.
  The integer division panics when \<^verbatim>\<open>v.Count\<close> is zero.\<close>

fun render_reports ::
  "JobErrorsForType list \<Rightarrow> (string \<times> JobErrorsForType) list \<Rightarrow> error + JobErrorsForType list"
  where
  "render_reports reports [] = Inr reports"
| "render_reports reports ((k, v) # rest) =
     (if JobErrorsForType_Count v = 0 then Inl DivideByZero
      else render_reports
             (reports @
                [v\<lparr>JobErrorsForType_ID := k,
                   JobErrorsForType_Average :=
                     float64 (int64_quo (JobErrorsForType_Total v) (JobErrorsForType_Count v))\<rparr>])
             rest)"

definition RecentErrors ::
  "'s queueManager \<Rightarrow> 's \<Rightarrow> clock \<Rightarrow> time_Duration \<Rightarrow> ErrorFilter \<Rightarrow> error + JobErrorsReport" where
  "RecentErrors m s clk window f =
     (case ErrorFilter_Validate f of
        Some err \<Rightarrow> Inl err
      | None \<Rightarrow>
          if window \<le>s time_Second then Inl WindowTooShort
          else
            (case RecentErrors_collector m s clk window f of
               Inl e \<Rightarrow> Inl e
             | Inr collector \<Rightarrow>
                 (case render_reports [] collector of
                    Inl e \<Rightarrow> Inl e
                  | Inr reports \<Rightarrow>
                      Inr \<lparr>JobErrorsReport_Period = window,
                           JobErrorsReport_FilteredByType = False,
                           JobErrorsReport_Data = reports\<rparr>)))"

definition RecentJobErrors ::
  "'s queueManager \<Rightarrow> 's \<Rightarrow> clock \<Rightarrow> string \<Rightarrow> time_Duration \<Rightarrow> ErrorFilter
   \<Rightarrow> error + JobErrorsReport" where
  "RecentJobErrors m s clk jobType window f =
     (case ErrorFilter_Validate f of
        Some err \<Rightarrow> Inl err
      | None \<Rightarrow>
          if window \<le>s time_Second then Inl WindowTooShort
          else
            (case RecentJobErrors_collector m s clk jobType window f of
               Inl e \<Rightarrow> Inl e
             | Inr collector \<Rightarrow>
                 (case render_reports [] collector of
                    Inl e \<Rightarrow> Inl e
                  | Inr reports \<Rightarrow>
                      Inr \<lparr>JobErrorsReport_Period = window,
                           JobErrorsReport_FilteredByType = True,
                           JobErrorsReport_Data = reports\<rparr>)))"

subsection \<open>CompleteJob and CompleteJobsByType\<close>

text \<open>Both return the error and the queue as the calls of \<^verbatim>\<open>Complete\<close> left it.
  \<^verbatim>\<open>Complete\<close> returns nothing to its caller.\<close>

definition CompleteJob :: "'s queueManager \<Rightarrow> 's \<Rightarrow> string \<Rightarrow> error option \<times> 's" where
  "CompleteJob m s name =
     (case Get (queue m) s name of
        None \<Rightarrow> (Some (CannotRecover name), s)
      | Some j \<Rightarrow> (None, Complete (queue m) (Some j) s))"

text \<open>The body of the loop of \<^verbatim>\<open>CompleteJobsByType\<close>:
  \<^verbatim>\<open>job, ok := m.queue.Get(ctx, stat.ID); if ok && job.Type().Name != jobType { continue };
  m.queue.Complete(ctx, job)\<close>. When the lookup fails, \<^verbatim>\<open>ok\<close> is false, the
  \<^verbatim>\<open>continue\<close> is not taken and \<^verbatim>\<open>Complete\<close> is called with the nil job.\<close>

definition CompleteJobsByType_body ::
  "'s queueManager \<Rightarrow> string \<Rightarrow> nat \<Rightarrow> JobStatusInfo \<Rightarrow> 's \<Rightarrow> 's" where
  "CompleteJobsByType_body m jobType i stat s =
     (if Completed stat then s
      else
        (case Get (queue m) s (ID stat) of
           Some job \<Rightarrow>
             if True \<and> Name (Type job) \<noteq> jobType then s
             else Complete (queue m) (Some job) s
         | None \<Rightarrow> Complete (queue m) None s))"

definition CompleteJobsByType :: "'s queueManager \<Rightarrow> 's \<Rightarrow> string \<Rightarrow> error option \<times> 's" where
  "CompleteJobsByType m s jobType =
     (None, for_range (CompleteJobsByType_body m jobType) 0 (JobStats (queue m) s) s)"

subsection \<open>Recording the calls of Complete\<close>

text \<open>Any queue, with the handles \<^verbatim>\<open>Complete\<close> was called with written down in the
  order of the calls. The manager sees the same queue; the record tells how often and
  on what it called \<^verbatim>\<open>Complete\<close>.\<close>

definition recording :: "'s Queue \<Rightarrow> ('s \<times> Job option list) Queue" where
  "recording q =
     \<lparr>JobStats = (\<lambda>(s, calls). JobStats q s),
      Results = (\<lambda>(s, calls). Results q s),
      Get = (\<lambda>(s, calls). Get q s),
      Complete = (\<lambda>j (s, calls). (Complete q j s, calls @ [j]))\<rparr>"

subsection \<open>A queue in memory\<close>

text \<open>A small queue to run the manager on: the status records its \<^verbatim>\<open>JobStats\<close>
  channel delivers and the jobs \<^verbatim>\<open>Get\<close> finds. A record in \<open>tracked\<close> without a job
  in \<open>stored\<close> is a job that left the queue after its status was sent. \<^verbatim>\<open>Complete\<close>
  marks the job it is given as completed and does nothing on a nil job.\<close>

record memQueue =
  tracked :: "JobStatusInfo list"
  stored :: "Job list"

definition markComplete :: "JobStatusInfo \<Rightarrow> JobStatusInfo" where
  "markComplete stat = stat\<lparr>Completed := True, InProgress := False\<rparr>"

definition memQueue_Complete :: "Job option \<Rightarrow> memQueue \<Rightarrow> memQueue" where
  "memQueue_Complete j s =
     (case j of
        None \<Rightarrow> s
      | Some job \<Rightarrow>
          \<lparr>tracked =
             map (\<lambda>stat. if ID stat = ID (Status job) then markComplete stat else stat)
               (tracked s),
           stored =
             map (\<lambda>j'. if ID (Status j') = ID (Status job)
                        then j'\<lparr>Status := markComplete (Status j')\<rparr> else j')
               (stored s)\<rparr>)"

definition memQueue_ops :: "memQueue Queue" where
  "memQueue_ops =
     \<lparr>JobStats = tracked,
      Results = (\<lambda>s. filter (\<lambda>j. Completed (Status j)) (stored s)),
      Get = (\<lambda>s name. find (\<lambda>j. ID (Status j) = name) (stored s)),
      Complete = memQueue_Complete\<rparr>"

definition mkStatus :: "string \<Rightarrow> bool \<Rightarrow> bool \<Rightarrow> time_Time \<Rightarrow> string list \<Rightarrow> JobStatusInfo" where
  "mkStatus name completed inProgress modified errs =
     \<lparr>ID = name, Completed = completed, InProgress = inProgress,
      ModificationTime = modified, ErrorCount = of_nat (length errs), Errors = errs\<rparr>"

definition mkJob :: "string \<Rightarrow> JobStatusInfo \<Rightarrow> time_Time \<Rightarrow> time_Time \<Rightarrow> time_Time \<Rightarrow> Job" where
  "mkJob jt stat created started ended =
     \<lparr>Type = \<lparr>Name = jt, Version = 0\<rparr>, Status = stat,
      TimeInfo = \<lparr>Created = created, Start = started, End = ended\<rparr>\<rparr>"

definition memQueue_of :: "Job list \<Rightarrow> memQueue" where
  "memQueue_of js = \<lparr>tracked = map Status js, stored = js\<rparr>"

text \<open>An instant \<open>n\<close> seconds after the origin of the time line, and a clock that
  stands still at an instant.\<close>

definition seconds :: "int \<Rightarrow> time_Time" where
  "seconds n = n * 1000000000"

definition clock_at :: "time_Time \<Rightarrow> clock" where
  "clock_at t = (\<lambda>i k. t)"

text \<open>The jobs of a small queue, seen at the instant \<open>testNow\<close>. The origin of the time
  line is Go's zero \<^verbatim>\<open>time.Time\<close>, so a time that was never set is \<open>0\<close>, and
  \<open>testNow\<close> lies more than the greatest \<^verbatim>\<open>Duration\<close> after it. Jobs \<open>A\<close> and \<open>B\<close> are
  those of scenario 8 of the specification.\<close>

definition testNow :: time_Time where
  "testNow = seconds 63900000000"

definition jobA :: Job where
  "jobA = mkJob ''unittest''
            (mkStatus ''A'' True False (testNow - seconds 10) [''e1'', ''e2'', ''e1''])
            (testNow - seconds 60) (testNow - seconds 30) (testNow - seconds 10)"

definition jobB :: Job where
  "jobB = mkJob ''unittest''
            (mkStatus ''B'' True False (testNow - seconds 5) [''e3''])
            (testNow - seconds 60) (testNow - seconds 20) (testNow - seconds 5)"

definition jobC :: Job where
  "jobC = mkJob ''cleanup''
            (mkStatus ''C'' False True (testNow - seconds 3600) [])
            (testNow - seconds 4000) (testNow - seconds 3600) 0"

definition jobD :: Job where
  "jobD = mkJob ''unittest''
            (mkStatus ''D'' False False (testNow - seconds 20) [])
            (testNow - seconds 20) 0 0"

definition jobE :: Job where
  "jobE = mkJob ''retry''
            (mkStatus ''E'' False False (testNow - seconds 2) [''e4''])
            (testNow - seconds 50) (testNow - seconds 8) (testNow - seconds 2)"

definition jobF :: Job where
  "jobF = mkJob ''lint''
            (mkStatus ''F'' True False (testNow - seconds 9) [''e5'', ''e6''])
            (testNow - seconds 40) (testNow - seconds 15) (testNow - seconds 9)"

definition jobG :: Job where
  "jobG = mkJob ''lint''
            (mkStatus ''G'' True False (testNow - seconds 7) [''e5''])
            (testNow - seconds 40) (testNow - seconds 12) (testNow - seconds 7)"

definition testQueue :: memQueue where
  "testQueue = memQueue_of [jobA, jobB, jobC, jobD, jobE, jobF, jobG]"

text \<open>The same queue after job \<open>D\<close> left it: its status is still delivered, its lookup
  fails.\<close>

definition testQueue_vanished :: memQueue where
  "testQueue_vanished =
     \<lparr>tracked = map Status [jobA, jobB, jobC, jobD, jobE, jobF, jobG],
      stored = [jobA, jobB, jobC, jobE, jobF, jobG]\<rparr>"

definition testManager :: "memQueue queueManager" where
  "testManager = NewQueueManager memQueue_ops"

subsection \<open>The predicates of the specification\<close>

text \<open>From the specification, section 4.1: a record is stale when
  \<^verbatim>\<open>!completed && inProgress && (now - modificationTime) > StalenessThreshold\<close>.
  The difference is the \<^verbatim>\<open>Duration\<close> that \<^verbatim>\<open>time.Since\<close> gives.\<close>

definition spec_stale :: "time_Time \<Rightarrow> time_Duration \<Rightarrow> JobStatusInfo \<Rightarrow> bool" where
  "spec_stale now threshold stat =
     (\<not> Completed stat \<and> InProgress stat
      \<and> threshold <s time_Since now (ModificationTime stat))"

text \<open>The records of the status stream that are stale when the pass looks at them and
  whose lookup succeeds with a job of type \<open>t\<close>, in the order of the stream.\<close>

definition spec_stale_jobs ::
  "'s queueManager \<Rightarrow> 's \<Rightarrow> clock \<Rightarrow> time_Duration \<Rightarrow> string \<Rightarrow> JobStatusInfo list" where
  "spec_stale_jobs m s clk threshold t =
     map snd
       (filter
          (\<lambda>(i, stat). spec_stale (clk i 0) threshold stat
             \<and> map_option (\<lambda>job. Name (Type job)) (Get (queue m) s (ID stat)) = Some t)
          (enumerate 0 (JobStats (queue m) s)))"

text \<open>From the specification, sections 4.1 and 4.3: the state predicate of each filter
  of \<^verbatim>\<open>JobStatus\<close> and \<^verbatim>\<open>JobIDsByState\<close>.\<close>

definition spec_state :: "CounterFilter \<Rightarrow> time_Time \<Rightarrow> time_Duration \<Rightarrow> JobStatusInfo \<Rightarrow> bool" where
  "spec_state f now threshold stat =
     (if f = InProgress_filter then InProgress stat
      else if f = Pending then \<not> Completed stat \<and> \<not> InProgress stat
      else if f = Stale then spec_stale now threshold stat
      else False)"

text \<open>From the specification, section 4.2, Latency: a record whose lookup succeeds is
  included when \<^verbatim>\<open>!completed && (now - timeInfo.end) < window\<close> and contributes
  \<^verbatim>\<open>now - timeInfo.created\<close>; a record whose lookup fails contributes nothing. The
  contributions to the bucket of type \<open>t\<close>, in the order of the stream; the second
  reading of the clock in an iteration is the one the contribution is taken at.\<close>

definition spec_latency_durations ::
  "'s queueManager \<Rightarrow> 's \<Rightarrow> clock \<Rightarrow> time_Duration \<Rightarrow> string \<Rightarrow> time_Duration list" where
  "spec_latency_durations m s clk window t =
     concat
       (map (\<lambda>(i, stat).
               case Get (queue m) s (ID stat) of
                 None \<Rightarrow> []
               | Some job \<Rightarrow>
                   if Name (Type job) = t \<and> \<not> Completed stat
                      \<and> time_Since (clk i 0) (End (TimeInfo job)) <s window
                   then [time_Since (clk i 1) (Created (TimeInfo job))]
                   else [])
          (enumerate 0 (JobStats (queue m) s)))"

text \<open>From the specification, section 4.4: a record is eligible when
  \<^verbatim>\<open>completed && errorCount > 0\<close>, its lookup must succeed, and
  \<^verbatim>\<open>(now - timeInfo.end) <= window\<close>. The records that match for the type \<open>t\<close>, in the
  order of the stream.\<close>

definition spec_error_records ::
  "'s queueManager \<Rightarrow> 's \<Rightarrow> clock \<Rightarrow> time_Duration \<Rightarrow> string \<Rightarrow> JobStatusInfo list" where
  "spec_error_records m s clk window t =
     concat
       (map (\<lambda>(i, stat).
               if Completed stat \<and> 0 <s ErrorCount stat then
                 (case Get (queue m) s (ID stat) of
                    None \<Rightarrow> []
                  | Some job \<Rightarrow>
                      if Name (Type job) = t
                         \<and> time_Since (clk i 0) (End (TimeInfo job)) \<le>s window
                      then [stat] else [])
               else [])
          (enumerate 0 (JobStats (queue m) s)))"

section \<open>Properties\<close>

subsection \<open>Loops that group by job type\<close>

lemma map_index_update:
  "map_index (AList.update k v c) z t = (if t = k then v else map_index c z t)"
  by (simp add: map_index_def update_conv')

lemma keys_of_map_of: "t \<in> set (map fst c) \<longleftrightarrow> map_of c t \<noteq> None"
  by (induction c) auto

text \<open>A loop whose body adds the contribution \<open>y\<close> of a record to the bucket of one
  key, or leaves the map alone: afterwards the bucket of \<open>t\<close> holds the contributions
  to \<open>t\<close>, folded in the order of the stream, and a key without contributions is as it
  was.\<close>

lemma grouped_loop:
  assumes body: "\<And>i x c. body i x c =
      (case contrib i x of None \<Rightarrow> c
       | Some (k, y) \<Rightarrow> AList.update k (upd (map_index c z k) y) c)"
  shows "map_of (for_range body i xs c) t =
      (let ys = concat (map (\<lambda>(j, x). case contrib j x of
                                None \<Rightarrow> []
                              | Some (k, y) \<Rightarrow> if k = t then [y] else [])
                         (enumerate i xs))
       in if ys = [] then map_of c t else Some (foldl upd (map_index c z t) ys))"
proof (induction xs arbitrary: i c)
  case Nil
  then show ?case by simp
next
  case (Cons x xs)
  show ?case
  proof (cases "contrib i x")
    case None
    then have "body i x c = c" by (simp add: body)
    with None show ?thesis by (simp add: Cons.IH del: concat_eq_Nil_conv)
  next
    case (Some p)
    obtain k y where p: "p = (k, y)" by (cases p)
    have b: "body i x c = AList.update k (upd (map_index c z k) y) c"
      by (simp add: body Some p)
    show ?thesis
    proof (cases "k = t")
      case True
      then show ?thesis
        by (simp add: Cons.IH b Some p Let_def map_index_update update_conv'
            del: concat_eq_Nil_conv)
    next
      case False
      then show ?thesis
        by (simp add: Cons.IH b Some p Let_def map_index_update update_conv'
            del: concat_eq_Nil_conv)
    qed
  qed
qed

lemma grouped_loop_distinct:
  assumes body: "\<And>i x c. body i x c =
      (case contrib i x of None \<Rightarrow> c
       | Some (k, y) \<Rightarrow> AList.update k (upd (map_index c z k) y) c)"
  shows "distinct (map fst c) \<Longrightarrow> distinct (map fst (for_range body i xs c))"
proof (induction xs arbitrary: i c)
  case Nil
  then show ?case by simp
next
  case (Cons x xs)
  have "distinct (map fst (body i x c))"
    using Cons.prems by (simp add: body distinct_update split: option.splits)
  then show ?case by (simp add: Cons.IH)
qed

lemma contributions_length:
  "length (concat (map (\<lambda>(j, x). case contrib j x of
                          None \<Rightarrow> []
                        | Some (k, y) \<Rightarrow> if k = t then [y] else [])
                     (enumerate i xs))) \<le> length xs"
  by (induction xs arbitrary: i) (auto split: option.splits simp add: le_SucI)

text \<open>Every bucket the loop leaves, started on the empty map, was made by at least one
  contribution and by no more contributions than the stream has records.\<close>

lemma grouped_loop_bucket:
  assumes body: "\<And>i x c. body i x c =
      (case contrib i x of None \<Rightarrow> c
       | Some (k, y) \<Rightarrow> AList.update k (upd (map_index c z k) y) c)"
    and kv: "(k, v) \<in> set (for_range body 0 xs [])"
  shows "\<exists>ys. ys \<noteq> [] \<and> length ys \<le> length xs \<and> v = foldl upd z ys"
proof -
  let ?ys = "concat (map (\<lambda>(j, x). case contrib j x of
                          None \<Rightarrow> []
                        | Some (k', y) \<Rightarrow> if k' = k then [y] else [])
                     (enumerate 0 xs))"
  have "distinct (map fst (for_range body 0 xs []))"
    by (rule grouped_loop_distinct [OF body]) simp
  with kv have "map_of (for_range body 0 xs []) k = Some v"
    by simp
  moreover have "map_of (for_range body 0 xs []) k
      = (if ?ys = [] then None else Some (foldl upd z ?ys))"
    unfolding grouped_loop [OF body]
    by (simp add: Let_def map_index_def del: concat_eq_Nil_conv)
  ultimately have "?ys \<noteq> []" "v = foldl upd z ?ys"
    by (simp_all del: concat_eq_Nil_conv split: if_splits)
  moreover have "length ?ys \<le> length xs"
    by (rule contributions_length)
  ultimately show ?thesis by blast
qed

lemma foldl_snoc: "foldl (\<lambda>v d. v @ [d]) v ys = v @ ys"
  by (induction ys arbitrary: v) auto

lemma concat_singletons_length:
  "(\<And>x. length (g x) \<le> 1) \<Longrightarrow> length (concat (map g xs)) \<le> length xs"
proof (induction xs)
  case Nil
  then show ?case by simp
next
  case (Cons x xs)
  have "length (g x) \<le> 1" by (rule Cons.prems)
  moreover have "length (concat (map g xs)) \<le> length xs"
    by (rule Cons.IH) (rule Cons.prems)
  ultimately show ?case by simp
qed

text \<open>A loop that appends the identifier of every record that passes a test.\<close>

lemma collect_loop:
  assumes body: "\<And>i x ids. x \<in> set xs \<Longrightarrow>
      body i x ids = Inr (if P i x then ids @ [h x] else ids)"
  shows "for_range_err body i xs ids =
      Inr (ids @ map (\<lambda>(j, x). h x) (filter (\<lambda>(j, x). P j x) (enumerate i xs)))"
  using body
proof (induction xs arbitrary: i ids)
  case Nil
  then show ?case by simp
next
  case (Cons x xs)
  have "body i x ids = Inr (if P i x then ids @ [h x] else ids)"
    by (rule Cons.prems) simp
  moreover have "for_range_err body (Suc i) xs ids' =
      Inr (ids' @ map (\<lambda>(j, x). h x) (filter (\<lambda>(j, x). P j x) (enumerate (Suc i) xs)))"
    for ids'
    by (rule Cons.IH) (simp add: Cons.prems)
  ultimately show ?case by simp
qed

subsection \<open>Counts as 64-bit integers\<close>

lemma sint_word_of_int_64:
  "- (2 ^ 63) \<le> d \<Longrightarrow> d < 2 ^ 63 \<Longrightarrow> sint (word_of_int d :: 64 word) = d"
  by (simp add: sint_sbintrunc' signed_take_bit_int_eq_self)

lemma int64_of_nat_positive:
  assumes "0 < n" and "n < 2 ^ 63"
  shows "0 <s (of_nat n :: 64 word)" and "(of_nat n :: 64 word) \<noteq> 0"
proof -
  have "int n < 2 ^ 63"
    using assms(2) by (metis of_nat_less_iff of_nat_numeral of_nat_power)
  then have "sint (of_nat n :: 64 word) = int n"
    using sint_word_of_int_64 [of "int n"] by simp
  with assms(1) show "0 <s (of_nat n :: 64 word)"
    by (simp add: word_sless_alt)
  then show "(of_nat n :: 64 word) \<noteq> 0"
    by auto
qed

subsection \<open>The values of the filters\<close>

lemmas filter_values =
  InProgress_filter_def Pending_def Stale_def Duration_def Latency_def Running_def
  UniqueErrors_def AllErrors_def StatsOnly_def

lemma ErrorFilter_distinct:
  "AllErrors \<noteq> UniqueErrors" "StatsOnly \<noteq> UniqueErrors" "StatsOnly \<noteq> AllErrors"
  by (simp_all add: filter_values)

subsection \<open>JobStatus\<close>

lemma map_of_counters_incr:
  "map_of (counters_incr c t') t = (if t = t' then Some (map_index c 0 t + 1) else map_of c t)"
  by (simp add: counters_incr_def update_conv')

lemma map_index_counters_incr:
  "map_index (counters_incr c t') 0 t = (if t = t' then map_index c 0 t + 1 else map_index c 0 t)"
  by (simp add: map_index_def map_of_counters_incr)

lemma distinct_counters_incr:
  "distinct (map fst c) \<Longrightarrow> distinct (map fst (counters_incr c t))"
  by (simp add: counters_incr_def distinct_update)

text \<open>A counting loop: the counter of \<open>t\<close> grows by the number of records that pass the
  test and resolve to \<open>t\<close>.\<close>

lemma count_loop:
  assumes body: "\<And>i x c. body i x c =
      (if P i x then (case G x of Some t \<Rightarrow> counters_incr c t | None \<Rightarrow> c) else c)"
  shows "map_of (for_range body i xs c) t =
      (let n = length (filter (\<lambda>(j, x). P j x \<and> G x = Some t) (enumerate i xs))
       in if n = 0 then map_of c t else Some (map_index c 0 t + of_nat n))"
proof (induction xs arbitrary: i c)
  case Nil
  then show ?case by simp
next
  case (Cons x xs)
  show ?case
  proof (cases "P i x \<and> G x = Some t")
    case True
    then have "body i x c = counters_incr c t" by (simp add: body)
    then show ?thesis using True
      by (simp add: Cons.IH Let_def map_of_counters_incr map_index_counters_incr)
  next
    case False
    then have "map_of (body i x c) t = map_of c t" "map_index (body i x c) 0 t = map_index c 0 t"
      by (auto simp add: body map_of_counters_incr map_index_counters_incr split: option.splits)
    with False show ?thesis
      by (auto simp add: Cons.IH Let_def)
  qed
qed

lemma count_loop_distinct:
  assumes body: "\<And>i x c. body i x c =
      (if P i x then (case G x of Some t \<Rightarrow> counters_incr c t | None \<Rightarrow> c) else c)"
  shows "distinct (map fst c) \<Longrightarrow> distinct (map fst (for_range body i xs c))"
proof (induction xs arbitrary: i c)
  case Nil
  then show ?case by simp
next
  case (Cons x xs)
  have "distinct (map fst (body i x c))"
    using Cons.prems by (simp add: body distinct_counters_incr split: option.splits)
  then show ?case by (simp add: Cons.IH)
qed

lemma JobStatus_Stale_shape:
  "JobStatus_Stale m s clk LockTimeout i stat c =
     (if spec_stale (clk i 0) LockTimeout stat
      then (case map_option (\<lambda>job. Name (Type job)) (Get (queue m) s (ID stat)) of
              Some t \<Rightarrow> counters_incr c t | None \<Rightarrow> c)
      else c)"
  by (simp add: JobStatus_Stale_def spec_stale_def split: option.splits)

lemma JobCounters_of_counters:
  "map_of (map (\<lambda>c. (JobCounters_ID c, JobCounters_Count c))
       (map (\<lambda>(jt, num). \<lparr>JobCounters_ID = jt, JobCounters_Count = num\<rparr>) counters))
     = map_of counters"
  "map JobCounters_ID (map (\<lambda>(jt, num). \<lparr>JobCounters_ID = jt, JobCounters_Count = num\<rparr>) counters)
     = map fst counters"
  by (induction counters) auto

text \<open>
  C4. \<^verbatim>\<open>JobStatus(Stale)\<close> returns a report with one row for each job type, and the
  count of the type \<open>t\<close> is the number of records of the status stream that satisfy
  \<^verbatim>\<open>!completed && inProgress && (now - modificationTime) > StalenessThreshold\<close> at the
  moment the pass looks at them and whose lookup succeeds with a job of type \<open>t\<close>. A
  record that violates the predicate, or whose lookup fails, is in no count; a type
  without such a record has no row.
\<close>

theorem JobStatus_Stale_counts:
  "\<exists>r. JobStatus m s clk LockTimeout Stale = Inr r
     \<and> JobStatusReport_Filter r = Stale
     \<and> distinct (map JobCounters_ID (JobStatusReport_Stats r))
     \<and> (\<forall>t. map_of (map (\<lambda>c. (JobCounters_ID c, JobCounters_Count c))
                       (JobStatusReport_Stats r)) t
             = (if spec_stale_jobs m s clk LockTimeout t = [] then None
                else Some (of_nat (length (spec_stale_jobs m s clk LockTimeout t)))))"
proof -
  let ?c = "for_range (JobStatus_Stale m s clk LockTimeout) 0 (JobStats (queue m) s) []"
  let ?P = "\<lambda>i stat. spec_stale (clk i 0) LockTimeout stat"
  let ?G = "\<lambda>stat. map_option (\<lambda>job. Name (Type job)) (Get (queue m) s (ID stat))"
  note shape = JobStatus_Stale_shape [of m s clk LockTimeout]
  define r where "r = \<lparr>JobStatusReport_Filter = Stale,
           JobStatusReport_Stats =
             map (\<lambda>(jt, num). \<lparr>JobCounters_ID = jt, JobCounters_Count = num\<rparr>) ?c\<rparr>"
  have run: "JobStatus m s clk LockTimeout Stale = Inr r"
    by (simp add: r_def JobStatus_def CounterFilter_Validate_def Stale_def Pending_def
        InProgress_filter_def)
  have stats: "JobStatusReport_Stats r
      = map (\<lambda>(jt, num). \<lparr>JobCounters_ID = jt, JobCounters_Count = num\<rparr>) ?c"
    by (simp add: r_def)
  have f: "JobStatusReport_Filter r = Stale"
    by (simp add: r_def)
  have d: "distinct (map JobCounters_ID (JobStatusReport_Stats r))"
    unfolding stats JobCounters_of_counters
    by (rule count_loop_distinct [where P = ?P and G = ?G, OF shape]) simp
  have c: "map_of (map (\<lambda>c. (JobCounters_ID c, JobCounters_Count c)) (JobStatusReport_Stats r)) t
             = (if spec_stale_jobs m s clk LockTimeout t = [] then None
                else Some (of_nat (length (spec_stale_jobs m s clk LockTimeout t))))" for t
    unfolding stats JobCounters_of_counters
      count_loop [where P = ?P and G = ?G, OF shape] spec_stale_jobs_def
    by (simp add: map_index_def Let_def)
  from run f d c show ?thesis by blast
qed

theorem JobStatus_Stale_counts_witness:
  "(\<exists>r. JobStatus testManager testQueue (clock_at testNow) (900 * time_Second) Stale = Inr r
       \<and> map_of (map (\<lambda>c. (JobCounters_ID c, JobCounters_Count c)) (JobStatusReport_Stats r))
            ''cleanup'' = Some 1
       \<and> map_of (map (\<lambda>c. (JobCounters_ID c, JobCounters_Count c)) (JobStatusReport_Stats r))
            ''unittest'' = None)
   \<and> (\<exists>r. JobStatus testManager testQueue (clock_at testNow) (7200 * time_Second) Stale = Inr r
       \<and> map_of (map (\<lambda>c. (JobCounters_ID c, JobCounters_Count c)) (JobStatusReport_Stats r))
            ''cleanup'' = None)"
proof -
  have a: "spec_stale_jobs testManager testQueue (clock_at testNow) (900 * time_Second) ''cleanup''
             = [Status jobC]"
    by code_simp
  have b: "spec_stale_jobs testManager testQueue (clock_at testNow) (900 * time_Second) ''unittest''
             = []"
    by code_simp
  have c: "spec_stale_jobs testManager testQueue (clock_at testNow) (7200 * time_Second) ''cleanup''
             = []"
    by code_simp
  show ?thesis
    using JobStatus_Stale_counts [of testManager testQueue "clock_at testNow" "900 * time_Second"]
      JobStatus_Stale_counts [of testManager testQueue "clock_at testNow" "7200 * time_Second"]
    by (auto simp add: a b c)
qed

subsection \<open>JobIDsByState\<close>

lemma JobIDsByState_skip_resolved:
  "jobType = [] \<or> Get (queue m) s (ID stat) \<noteq> None \<Longrightarrow>
   JobIDsByState_skip m s jobType stat = Inr False"
  by (auto simp add: JobIDsByState_skip_def)

text \<open>Without a type restriction, or when the lookup of every record of the stream
  succeeds, \<^verbatim>\<open>JobIDsByState\<close> returns the identifiers of the records that satisfy the
  state predicate of the filter, in the order of the stream. The type the caller
  asked for has no part in the result but to be copied into the report.\<close>

lemma JobIDsByState_resolved:
  assumes f: "CounterFilter_Validate f = None"
    and ok: "jobType = [] \<or> (\<forall>stat\<in>set (JobStats (queue m) s). Get (queue m) s (ID stat) \<noteq> None)"
  shows "JobIDsByState m s clk LockTimeout jobType f =
     Inr \<lparr>JobReportIDs_Filter = f, JobReportIDs_Type = jobType,
          JobReportIDs_IDs =
            map (\<lambda>(i, stat). ID stat)
              (filter (\<lambda>(i, stat). spec_state f (clk i 0) LockTimeout stat)
                 (enumerate 0 (JobStats (queue m) s)))\<rparr>"
proof -
  have skip: "JobIDsByState_skip m s jobType stat = Inr False"
    if "stat \<in> set (JobStats (queue m) s)" for stat
    using ok that by (intro JobIDsByState_skip_resolved) auto
  have "f = InProgress_filter \<or> f = Pending \<or> f = Stale"
    using f by (simp add: CounterFilter_Validate_def split: if_splits)
  then consider (i) "f = InProgress_filter" | (p) "f \<noteq> InProgress_filter" "f = Pending"
    | (s) "f \<noteq> InProgress_filter" "f \<noteq> Pending" "f = Stale"
    by blast
  then show ?thesis
  proof cases
    case i
    have "for_range_err (JobIDsByState_InProgress m s jobType) 0 (JobStats (queue m) s) [] =
        Inr ([] @ map (\<lambda>(j, stat). ID stat)
               (filter (\<lambda>(j, stat). InProgress stat) (enumerate 0 (JobStats (queue m) s))))"
      by (rule collect_loop) (simp add: JobIDsByState_InProgress_def skip)
    with i f show ?thesis
      by (simp add: JobIDsByState_def spec_state_def)
  next
    case p
    have "for_range_err (JobIDsByState_Pending m s jobType) 0 (JobStats (queue m) s) [] =
        Inr ([] @ map (\<lambda>(j, stat). ID stat)
               (filter (\<lambda>(j, stat). \<not> Completed stat \<and> \<not> InProgress stat)
                  (enumerate 0 (JobStats (queue m) s))))"
      by (rule collect_loop) (simp add: JobIDsByState_Pending_def skip)
    with p f show ?thesis
      by (simp add: JobIDsByState_def spec_state_def)
  next
    case s
    have "for_range_err (JobIDsByState_Stale m s clk LockTimeout jobType) 0
          (JobStats (queue m) s) [] =
        Inr ([] @ map (\<lambda>(j, stat). ID stat)
               (filter (\<lambda>(j, stat). spec_stale (clk j 0) LockTimeout stat)
                  (enumerate 0 (JobStats (queue m) s))))"
      by (rule collect_loop) (simp add: JobIDsByState_Stale_def skip spec_stale_def)
    with s f show ?thesis
      by (simp add: JobIDsByState_def spec_state_def)
  qed
qed

subsection \<open>CompleteJob\<close>

text \<open>
  C7. \<^verbatim>\<open>CompleteJob\<close> on an identifier whose lookup fails returns the error
  "cannot recover job", a \<open>NotFoundError\<close>, and does not call \<^verbatim>\<open>Complete\<close>: the queue
  and the record of calls are as before. On an identifier whose lookup succeeds with
  the handle \<open>j\<close> it returns no error, and the queue has seen exactly one call of
  \<^verbatim>\<open>Complete\<close>, on \<open>j\<close>. This holds for every queue, so for every outcome of
  \<^verbatim>\<open>Complete\<close>.
\<close>

theorem CompleteJob_lookup_then_complete:
  "(Get q s name = None \<longrightarrow>
      (\<exists>e. CompleteJob (NewQueueManager (recording q)) (s, calls) name = (Some e, (s, calls))
           \<and> isNotFoundError e))
   \<and> (\<forall>j. Get q s name = Some j \<longrightarrow>
        CompleteJob (NewQueueManager (recording q)) (s, calls) name
          = (None, (Complete q (Some j) s, calls @ [Some j])))"
  by (simp add: CompleteJob_def NewQueueManager_def recording_def)

theorem CompleteJob_lookup_then_complete_witness:
  "Get memQueue_ops testQueue ''Z'' = None
   \<and> (\<exists>e. CompleteJob (NewQueueManager (recording memQueue_ops)) (testQueue, []) ''Z''
            = (Some e, (testQueue, []))
          \<and> isNotFoundError e)
   \<and> Get memQueue_ops testQueue ''C'' = Some jobC
   \<and> CompleteJob (NewQueueManager (recording memQueue_ops)) (testQueue, []) ''C''
        = (None, (Complete memQueue_ops (Some jobC) testQueue, [Some jobC]))"
proof -
  have a: "Get memQueue_ops testQueue ''Z'' = None"
    by code_simp
  have b: "Get memQueue_ops testQueue ''C'' = Some jobC"
    by code_simp
  show ?thesis
    using CompleteJob_lookup_then_complete [of memQueue_ops testQueue "''Z''" "[]"]
      CompleteJob_lookup_then_complete [of memQueue_ops testQueue "''C''" "[]"] a b
    by simp
qed

subsection \<open>CompleteJobsByType\<close>

text \<open>What one iteration of \<^verbatim>\<open>CompleteJobsByType\<close> adds to the calls of \<^verbatim>\<open>Complete\<close>:
  nothing for a completed record or a job of another type, the job for a job of the
  type asked for, and the nil job for a record whose lookup fails.\<close>

lemma CompleteJobsByType_body_calls:
  "CompleteJobsByType_body (NewQueueManager (recording q)) jobType i stat (s, calls) =
     (if Completed stat then (s, calls)
      else case Get q s (ID stat) of
             None \<Rightarrow> (Complete q None s, calls @ [None])
           | Some job \<Rightarrow>
               if Name (Type job) = jobType
               then (Complete q (Some job) s, calls @ [Some job])
               else (s, calls))"
  by (simp add: CompleteJobsByType_body_def NewQueueManager_def recording_def
      split: option.splits)

subsection \<open>RecentTiming\<close>

lemma RecentTiming_Duration_shape:
  "RecentTiming_Duration clk window i job c =
     (case (if Completed (Status job) \<and> time_Since (clk i 0) (End (TimeInfo job)) <s window
            then Some (Name (Type job), time_Sub (End (TimeInfo job)) (Start (TimeInfo job)))
            else None) of
        None \<Rightarrow> c
      | Some (k, y) \<Rightarrow> AList.update k ((\<lambda>v d. v @ [d]) (map_index c [] k) y) c)"
  by (simp add: RecentTiming_Duration_def counters_append_def Let_def)

lemma RecentTiming_Latency_shape:
  "RecentTiming_Latency m s clk window i stat c =
     (case (case Get (queue m) s (ID stat) of
              None \<Rightarrow> None
            | Some job \<Rightarrow>
                if \<not> Completed stat \<and> time_Since (clk i 0) (End (TimeInfo job)) <s window
                then Some (Name (Type job), time_Since (clk i 1) (Created (TimeInfo job)))
                else None) of
        None \<Rightarrow> c
      | Some (k, y) \<Rightarrow> AList.update k ((\<lambda>v d. v @ [d]) (map_index c [] k) y) c)"
  by (simp add: RecentTiming_Latency_def counters_append_def Let_def split: option.splits)

lemma RecentTiming_Running_shape:
  "RecentTiming_Running m s clk i stat c =
     (case (if \<not> Completed stat \<and> InProgress stat then
              (case Get (queue m) s (ID stat) of
                 None \<Rightarrow> None
               | Some job \<Rightarrow>
                   Some (Name (Type job), time_Since (clk i 0) (Start (TimeInfo job))))
            else None) of
        None \<Rightarrow> c
      | Some (k, y) \<Rightarrow> AList.update k ((\<lambda>v d. v @ [d]) (map_index c [] k) y) c)"
  by (simp add: RecentTiming_Running_def counters_append_def Let_def split: option.splits)

text \<open>Every bucket of durations holds at least one duration, and no more than the
  stream it was filled from has values.\<close>

lemma RecentTiming_counters_bucket:
  assumes c: "RecentTiming_counters m s clk window g = Inr c" and kv: "(k, v) \<in> set c"
  shows "v \<noteq> []"
    and "length v \<le> max (length (JobStats (queue m) s)) (length (Results (queue m) s))"
proof -
  consider (d) "g = Duration" | (l) "g \<noteq> Duration" "g = Latency"
    | (r) "g \<noteq> Duration" "g \<noteq> Latency" "g = Running"
    using c by (auto simp add: RecentTiming_counters_def split: if_splits)
  then have "v \<noteq> []
      \<and> length v \<le> max (length (JobStats (queue m) s)) (length (Results (queue m) s))"
  proof cases
    case d
    with c kv have "(k, v) \<in> set (for_range (RecentTiming_Duration clk window) 0
        (Results (queue m) s) [])"
      by (simp add: RecentTiming_counters_def)
    from grouped_loop_bucket [where upd = "\<lambda>v d. v @ [d]" and z = "[]",
        OF RecentTiming_Duration_shape this]
    show ?thesis by (auto simp add: foldl_snoc)
  next
    case l
    with c kv have "(k, v) \<in> set (for_range (RecentTiming_Latency m s clk window) 0
        (JobStats (queue m) s) [])"
      by (simp add: RecentTiming_counters_def)
    from grouped_loop_bucket [where upd = "\<lambda>v d. v @ [d]" and z = "[]",
        OF RecentTiming_Latency_shape this]
    show ?thesis by (auto simp add: foldl_snoc)
  next
    case r
    with c kv have "(k, v) \<in> set (for_range (RecentTiming_Running m s clk) 0
        (JobStats (queue m) s) [])"
      by (simp add: RecentTiming_counters_def)
    from grouped_loop_bucket [where upd = "\<lambda>v d. v @ [d]" and z = "[]",
        OF RecentTiming_Running_shape this]
    show ?thesis by (auto simp add: foldl_snoc)
  qed
  then show "v \<noteq> []"
    and "length v \<le> max (length (JobStats (queue m) s)) (length (Results (queue m) s))"
    by simp_all
qed

lemma RecentTiming_bucket_length:
  assumes "length (JobStats (queue m) s) < 2 ^ 63" and "length (Results (queue m) s) < 2 ^ 63"
    and "RecentTiming_counters m s clk window g = Inr c" and "(k, v) \<in> set c"
  shows "1 \<le> length v \<and> (of_nat (length v) :: time_Duration) \<noteq> 0"
proof -
  from RecentTiming_counters_bucket [OF assms(3,4)] assms(1,2)
  have "0 < length v" "length v < 2 ^ 63"
    by simp_all
  with int64_of_nat_positive(2) [of "length v"] show ?thesis by (simp add: Suc_le_eq)
qed

lemma RecentTiming_runtimes_error:
  "RecentTiming_runtimes runtimes c = Inl e \<Longrightarrow> e = DivideByZero"
  by (induction c arbitrary: runtimes) (auto simp add: Let_def split: if_splits)

lemma RecentTiming_runtimes_Inl:
  "RecentTiming_runtimes runtimes c = Inl e \<Longrightarrow>
   \<exists>(k, v)\<in>set c. (of_nat (length v) :: time_Duration) = 0"
  by (induction c arbitrary: runtimes) (auto simp add: Let_def split: if_splits)

lemma RecentTiming_counters_valid:
  "RuntimeFilter_Validate g = None \<Longrightarrow> \<exists>c. RecentTiming_counters m s clk window g = Inr c"
  by (auto simp add: RuntimeFilter_Validate_def RecentTiming_counters_def split: if_splits)

lemma RecentTiming_errors:
  assumes "RuntimeFilter_Validate g = None" and "\<not> window \<le>s time_Second"
    and "RecentTiming m s clk window g = Inl e"
  shows "e = DivideByZero"
proof -
  obtain c where c: "RecentTiming_counters m s clk window g = Inr c"
    using RecentTiming_counters_valid [OF assms(1), of m s clk window] by blast
  with assms show ?thesis
    by (auto simp add: RecentTiming_def split: sum.splits dest: RecentTiming_runtimes_error)
qed

lemma RecentTiming_no_panic:
  assumes "length (JobStats (queue m) s) < 2 ^ 63" and "length (Results (queue m) s) < 2 ^ 63"
  shows "RecentTiming m s clk window g \<noteq> Inl DivideByZero"
proof
  assume "RecentTiming m s clk window g = Inl DivideByZero"
  then obtain c where "RecentTiming_counters m s clk window g = Inr c"
    and "RecentTiming_runtimes [] c = Inl DivideByZero"
    by (auto simp add: RecentTiming_def RuntimeFilter_Validate_def RecentTiming_counters_def
        split: option.splits if_splits sum.splits)
  with RecentTiming_bucket_length [OF assms] RecentTiming_runtimes_Inl [of "[]" c DivideByZero]
  show False by blast
qed

text \<open>With a valid filter, a window of more than one second and streams of fewer than
  \<open>2 ^ 63\<close> values, \<^verbatim>\<open>RecentTiming\<close> returns a report.\<close>

lemma RecentTiming_returns:
  assumes "RuntimeFilter_Validate g = None" and "time_Second <s window"
    and "length (JobStats (queue m) s) < 2 ^ 63" and "length (Results (queue m) s) < 2 ^ 63"
  shows "\<exists>r. RecentTiming m s clk window g = Inr r"
proof (cases "RecentTiming m s clk window g")
  case (Inl e)
  with RecentTiming_errors [OF assms(1), of window m s clk e] assms(2)
  have "e = DivideByZero" by (simp add: signed.not_le)
  with Inl RecentTiming_no_panic [OF assms(3,4), of clk window g] show ?thesis by simp
next
  case (Inr r)
  then show ?thesis by simp
qed

text \<open>
  C8. In \<^verbatim>\<open>RecentTiming\<close> with the \<^verbatim>\<open>Latency\<close> filter, the bucket of the type \<open>t\<close>
  holds, in the order of the stream, one duration for each record whose lookup
  succeeds with a job of type \<open>t\<close> and for which
  \<^verbatim>\<open>!completed && (now - timeInfo.end) < window\<close> holds (the predicate reads
  \<^verbatim>\<open>timeInfo.end\<close> of a job that is not completed), and that duration is
  \<^verbatim>\<open>now - timeInfo.created\<close>; a record whose lookup fails, or that fails the predicate,
  adds nothing, and a type without contributions has no bucket. The report is rendered
  from these buckets. Both differences are the saturating \<^verbatim>\<open>time.Since\<close>.
\<close>

theorem RecentTiming_Latency_buckets:
  "\<exists>counters. RecentTiming_counters m s clk window Latency = Inr counters
     \<and> distinct (map fst counters)
     \<and> (\<forall>t. map_of counters t =
          (if spec_latency_durations m s clk window t = [] then None
           else Some (spec_latency_durations m s clk window t)))
     \<and> RecentTiming m s clk window Latency =
         (if window \<le>s time_Second then Inl WindowTooShort
          else case RecentTiming_runtimes [] counters of
                 Inl e \<Rightarrow> Inl e
               | Inr runtimes \<Rightarrow>
                   Inr \<lparr>JobRuntimeReport_Filter = Latency, JobRuntimeReport_Period = window,
                        JobRuntimeReport_Stats = runtimes\<rparr>)"
proof -
  let ?c = "for_range (RecentTiming_Latency m s clk window) 0 (JobStats (queue m) s) []"
  let ?contrib = "\<lambda>i stat. case Get (queue m) s (ID stat) of
              None \<Rightarrow> None
            | Some job \<Rightarrow>
                if \<not> Completed stat \<and> time_Since (clk i 0) (End (TimeInfo job)) <s window
                then Some (Name (Type job), time_Since (clk i 1) (Created (TimeInfo job)))
                else None"
  note shape = RecentTiming_Latency_shape [of m s clk window]
  have run: "RecentTiming_counters m s clk window Latency = Inr ?c"
    by (simp add: RecentTiming_counters_def Latency_def Duration_def)
  have d: "distinct (map fst ?c)"
    by (rule grouped_loop_distinct [where contrib = ?contrib, OF shape]) simp
  have c: "map_of ?c t =
          (if spec_latency_durations m s clk window t = [] then None
           else Some (spec_latency_durations m s clk window t))" for t
  proof -
    have eq: "(\<lambda>(i, stat). case ?contrib i stat of
                   None \<Rightarrow> [] | Some (k, y) \<Rightarrow> if k = t then [y] else [])
       = (\<lambda>(i, stat).
                       case Get (queue m) s (ID stat) of
                         None \<Rightarrow> []
                       | Some job \<Rightarrow>
                           if Name (Type job) = t \<and> \<not> Completed stat
                              \<and> time_Since (clk i 0) (End (TimeInfo job)) <s window
                           then [time_Since (clk i 1) (Created (TimeInfo job))]
                           else [])"
      by (auto simp add: fun_eq_iff split: option.splits)
    show ?thesis
      unfolding grouped_loop [where contrib = ?contrib, OF shape] eq spec_latency_durations_def
      by (simp add: foldl_snoc map_index_def Let_def del: concat_eq_Nil_conv)
  qed
  have rt: "RecentTiming m s clk window Latency =
         (if window \<le>s time_Second then Inl WindowTooShort
          else case RecentTiming_runtimes [] ?c of
                 Inl e \<Rightarrow> Inl e
               | Inr runtimes \<Rightarrow>
                   Inr \<lparr>JobRuntimeReport_Filter = Latency, JobRuntimeReport_Period = window,
                        JobRuntimeReport_Stats = runtimes\<rparr>)"
    by (simp add: RecentTiming_def run RuntimeFilter_Validate_def)
  from run d c rt show ?thesis by blast
qed

text \<open>On the small queue: job \<open>E\<close> is not completed and its last run ended two seconds
  ago, so it is included with its age of fifty seconds; job \<open>D\<close> is pending and never
  ran, its end is the zero time, \<^verbatim>\<open>time.Since\<close> of it is the greatest duration, and
  it is not included.\<close>

theorem RecentTiming_Latency_buckets_witness:
  "\<exists>counters.
      RecentTiming_counters testManager testQueue (clock_at testNow) (60 * time_Second) Latency
        = Inr counters
    \<and> map_of counters ''retry'' = Some [50 * time_Second]
    \<and> map_of counters ''unittest'' = None"
proof -
  have a: "spec_latency_durations testManager testQueue (clock_at testNow) (60 * time_Second) ''retry''
             = [50 * time_Second]"
    by code_simp
  have b: "spec_latency_durations testManager testQueue (clock_at testNow) (60 * time_Second)
             ''unittest'' = []"
    by code_simp
  show ?thesis
    using RecentTiming_Latency_buckets [of testManager testQueue "clock_at testNow" "60 * time_Second"]
    by (auto simp add: a b)
qed

subsection \<open>RecentErrors and RecentJobErrors\<close>

lemma foldl_bucket_add:
  "foldl (bucket_add keep) v ys =
     v\<lparr>JobErrorsForType_Count := JobErrorsForType_Count v + of_nat (length ys),
       JobErrorsForType_Total := JobErrorsForType_Total v + sum_list (map ErrorCount ys),
       JobErrorsForType_Errors :=
         (if keep then JobErrorsForType_Errors v @ concat (map Errors ys)
          else JobErrorsForType_Errors v)\<rparr>"
  by (induction ys arbitrary: v) (simp_all add: bucket_add_def Let_def algebra_simps)

lemma foldl_bucket_add_zero:
  "foldl (bucket_add keep) JobErrorsForType_zero ys =
     \<lparr>JobErrorsForType_ID = [], JobErrorsForType_Count = of_nat (length ys),
      JobErrorsForType_Total = sum_list (map ErrorCount ys), JobErrorsForType_Average = 0,
      JobErrorsForType_Errors = (if keep then concat (map Errors ys) else [])\<rparr>"
  by (simp add: foldl_bucket_add JobErrorsForType_zero_def)

lemma RecentErrors_body_shape:
  "RecentErrors_body keep m s clk window i stat c =
     (case (if Completed stat \<and> 0 <s ErrorCount stat then
              (case Get (queue m) s (ID stat) of
                 None \<Rightarrow> None
               | Some job \<Rightarrow>
                   if time_Since (clk i 0) (End (TimeInfo job)) \<le>s window
                   then Some (Name (Type job), stat) else None)
            else None) of
        None \<Rightarrow> c
      | Some (k, y) \<Rightarrow>
          AList.update k (bucket_add keep (map_index c JobErrorsForType_zero k) y) c)"
  by (auto simp add: RecentErrors_body_def collector_add_def Let_def signed.not_less
      split: option.splits dest: signed.leD)

lemma RecentJobErrors_body_shape:
  "RecentJobErrors_body keep m s clk jobType window i stat c =
     (case (if Completed stat \<and> 0 <s ErrorCount stat then
              (case Get (queue m) s (ID stat) of
                 None \<Rightarrow> None
               | Some job \<Rightarrow>
                   if Name (Type job) = jobType
                      \<and> time_Since (clk i 0) (End (TimeInfo job)) \<le>s window
                   then Some (jobType, stat) else None)
            else None) of
        None \<Rightarrow> c
      | Some (k, y) \<Rightarrow>
          AList.update k (bucket_add keep (map_index c JobErrorsForType_zero k) y) c)"
  by (auto simp add: RecentJobErrors_body_def collector_add_def Let_def signed.not_less
      split: option.splits dest: signed.leD)

text \<open>The collector after the pass of \<^verbatim>\<open>RecentErrors\<close>: the bucket of \<open>t\<close> is made of
  the records that match for \<open>t\<close>.\<close>

lemma RecentErrors_loop:
  "map_of (for_range (RecentErrors_body keep m s clk window) 0 (JobStats (queue m) s) []) t =
     (if spec_error_records m s clk window t = [] then None
      else Some (foldl (bucket_add keep) JobErrorsForType_zero
                   (spec_error_records m s clk window t)))"
proof -
  let ?contrib = "\<lambda>i stat. if Completed stat \<and> 0 <s ErrorCount stat then
              (case Get (queue m) s (ID stat) of
                 None \<Rightarrow> None
               | Some job \<Rightarrow>
                   if time_Since (clk i 0) (End (TimeInfo job)) \<le>s window
                   then Some (Name (Type job), stat) else None)
            else None"
  have eq: "(\<lambda>(i, stat). case ?contrib i stat of
                None \<Rightarrow> [] | Some (k, y) \<Rightarrow> if k = t then [y] else [])
      = (\<lambda>(i, stat).
               if Completed stat \<and> 0 <s ErrorCount stat then
                 (case Get (queue m) s (ID stat) of
                    None \<Rightarrow> []
                  | Some job \<Rightarrow>
                      if Name (Type job) = t
                         \<and> time_Since (clk i 0) (End (TimeInfo job)) \<le>s window
                      then [stat] else [])
               else [])"
    by (auto simp add: fun_eq_iff split: option.splits)
  show ?thesis
    unfolding grouped_loop [where contrib = ?contrib and upd = "bucket_add keep"
        and z = JobErrorsForType_zero and body = "RecentErrors_body keep m s clk window",
        OF RecentErrors_body_shape] eq
      spec_error_records_def
    by (simp add: map_index_def Let_def del: concat_eq_Nil_conv)
qed

lemma RecentJobErrors_loop:
  "map_of (for_range (RecentJobErrors_body keep m s clk jobType window) 0
             (JobStats (queue m) s) []) t =
     (if t = jobType \<and> spec_error_records m s clk window jobType \<noteq> []
      then Some (foldl (bucket_add keep) JobErrorsForType_zero
                   (spec_error_records m s clk window jobType))
      else None)"
proof -
  let ?contrib = "\<lambda>i stat. if Completed stat \<and> 0 <s ErrorCount stat then
              (case Get (queue m) s (ID stat) of
                 None \<Rightarrow> None
               | Some job \<Rightarrow>
                   if Name (Type job) = jobType
                      \<and> time_Since (clk i 0) (End (TimeInfo job)) \<le>s window
                   then Some (jobType, stat) else None)
            else None"
  have eq: "(\<lambda>(i, stat). case ?contrib i stat of
                None \<Rightarrow> [] | Some (k, y) \<Rightarrow> if k = t then [y] else [])
      = (\<lambda>(i, stat).
               if t = jobType then
                 (if Completed stat \<and> 0 <s ErrorCount stat then
                   (case Get (queue m) s (ID stat) of
                      None \<Rightarrow> []
                    | Some job \<Rightarrow>
                        if Name (Type job) = jobType
                           \<and> time_Since (clk i 0) (End (TimeInfo job)) \<le>s window
                        then [stat] else [])
                  else [])
               else [])"
    by (auto simp add: fun_eq_iff split: option.splits)
  have none: "concat (map (\<lambda>(i, stat). []) xs) = []" for xs :: "(nat \<times> JobStatusInfo) list"
    by (induction xs) auto
  show ?thesis
    unfolding grouped_loop [where contrib = ?contrib and upd = "bucket_add keep"
        and z = JobErrorsForType_zero
        and body = "RecentJobErrors_body keep m s clk jobType window",
        OF RecentJobErrors_body_shape] eq
      spec_error_records_def
    by (cases "t = jobType") (simp_all add: map_index_def Let_def none del: concat_eq_Nil_conv)
qed

lemma RecentErrors_loop_distinct:
  "distinct (map fst (for_range (RecentErrors_body keep m s clk window) 0 xs []))"
  by (rule grouped_loop_distinct [where upd = "bucket_add keep" and z = JobErrorsForType_zero,
        OF RecentErrors_body_shape]) simp

lemma RecentJobErrors_loop_distinct:
  "distinct (map fst (for_range (RecentJobErrors_body keep m s clk jobType window) 0 xs []))"
  by (rule grouped_loop_distinct [where upd = "bucket_add keep" and z = JobErrorsForType_zero,
        OF RecentJobErrors_body_shape]) simp

lemma unique_errors_keys: "map fst (unique_errors c) = map fst c"
  by (induction c) (auto simp add: unique_errors_def)

lemma map_of_unique_errors:
  "map_of (unique_errors c) t =
     map_option (\<lambda>v. v\<lparr>JobErrorsForType_Errors := remdups (JobErrorsForType_Errors v)\<rparr>)
       (map_of c t)"
  by (induction c) (auto simp add: unique_errors_def)

lemma RecentErrors_collector_buckets:
  assumes "RecentErrors_collector m s clk window f = Inr c"
  shows "distinct (map fst c)"
    and "map_of c t =
      (if spec_error_records m s clk window t = [] then None
       else Some
         \<lparr>JobErrorsForType_ID = [],
          JobErrorsForType_Count = of_nat (length (spec_error_records m s clk window t)),
          JobErrorsForType_Total =
            sum_list (map ErrorCount (spec_error_records m s clk window t)),
          JobErrorsForType_Average = 0,
          JobErrorsForType_Errors =
            (if f = UniqueErrors
             then remdups (concat (map Errors (spec_error_records m s clk window t)))
             else if f = AllErrors
             then concat (map Errors (spec_error_records m s clk window t))
             else [])\<rparr>)"
proof -
  consider (u) "f = UniqueErrors" | (a) "f \<noteq> UniqueErrors" "f = AllErrors"
    | (o) "f \<noteq> UniqueErrors" "f \<noteq> AllErrors" "f = StatsOnly"
    using assms by (auto simp add: RecentErrors_collector_def split: if_splits)
  then have "distinct (map fst c) \<and> map_of c t =
      (if spec_error_records m s clk window t = [] then None
       else Some
         \<lparr>JobErrorsForType_ID = [],
          JobErrorsForType_Count = of_nat (length (spec_error_records m s clk window t)),
          JobErrorsForType_Total =
            sum_list (map ErrorCount (spec_error_records m s clk window t)),
          JobErrorsForType_Average = 0,
          JobErrorsForType_Errors =
            (if f = UniqueErrors
             then remdups (concat (map Errors (spec_error_records m s clk window t)))
             else if f = AllErrors
             then concat (map Errors (spec_error_records m s clk window t))
             else [])\<rparr>)"
  proof cases
    case u
    with assms have "c = unique_errors
        (for_range (RecentErrors_body True m s clk window) 0 (JobStats (queue m) s) [])"
      by (simp add: RecentErrors_collector_def)
    then show ?thesis
      using u by (simp add: unique_errors_keys map_of_unique_errors RecentErrors_loop_distinct
          RecentErrors_loop foldl_bucket_add_zero)
  next
    case a
    with assms have "c =
        for_range (RecentErrors_body True m s clk window) 0 (JobStats (queue m) s) []"
      by (simp add: RecentErrors_collector_def)
    then show ?thesis
      using a by (simp add: RecentErrors_loop_distinct RecentErrors_loop foldl_bucket_add_zero)
  next
    case o
    with assms have "c =
        for_range (RecentErrors_body False m s clk window) 0 (JobStats (queue m) s) []"
      by (simp add: RecentErrors_collector_def)
    then show ?thesis
      using o by (simp add: RecentErrors_loop_distinct RecentErrors_loop foldl_bucket_add_zero)
  qed
  then show "distinct (map fst c)"
    and "map_of c t =
      (if spec_error_records m s clk window t = [] then None
       else Some
         \<lparr>JobErrorsForType_ID = [],
          JobErrorsForType_Count = of_nat (length (spec_error_records m s clk window t)),
          JobErrorsForType_Total =
            sum_list (map ErrorCount (spec_error_records m s clk window t)),
          JobErrorsForType_Average = 0,
          JobErrorsForType_Errors =
            (if f = UniqueErrors
             then remdups (concat (map Errors (spec_error_records m s clk window t)))
             else if f = AllErrors
             then concat (map Errors (spec_error_records m s clk window t))
             else [])\<rparr>)"
    by simp_all
qed

lemma RecentJobErrors_collector_buckets:
  assumes "RecentJobErrors_collector m s clk jobType window f = Inr c"
  shows "distinct (map fst c)"
    and "map_of c t =
      (if t = jobType \<and> spec_error_records m s clk window jobType \<noteq> [] then
         Some
         \<lparr>JobErrorsForType_ID = [],
          JobErrorsForType_Count = of_nat (length (spec_error_records m s clk window jobType)),
          JobErrorsForType_Total =
            sum_list (map ErrorCount (spec_error_records m s clk window jobType)),
          JobErrorsForType_Average = 0,
          JobErrorsForType_Errors =
            (if f = UniqueErrors
             then remdups (concat (map Errors (spec_error_records m s clk window jobType)))
             else if f = AllErrors
             then concat (map Errors (spec_error_records m s clk window jobType))
             else [])\<rparr>
       else None)"
proof -
  consider (u) "f = UniqueErrors" | (a) "f \<noteq> UniqueErrors" "f = AllErrors"
    | (o) "f \<noteq> UniqueErrors" "f \<noteq> AllErrors" "f = StatsOnly"
    using assms by (auto simp add: RecentJobErrors_collector_def split: if_splits)
  then have "distinct (map fst c) \<and> map_of c t =
      (if t = jobType \<and> spec_error_records m s clk window jobType \<noteq> [] then
         Some
         \<lparr>JobErrorsForType_ID = [],
          JobErrorsForType_Count = of_nat (length (spec_error_records m s clk window jobType)),
          JobErrorsForType_Total =
            sum_list (map ErrorCount (spec_error_records m s clk window jobType)),
          JobErrorsForType_Average = 0,
          JobErrorsForType_Errors =
            (if f = UniqueErrors
             then remdups (concat (map Errors (spec_error_records m s clk window jobType)))
             else if f = AllErrors
             then concat (map Errors (spec_error_records m s clk window jobType))
             else [])\<rparr>
       else None)"
  proof cases
    case u
    with assms have "c = unique_errors
        (for_range (RecentJobErrors_body True m s clk jobType window) 0
           (JobStats (queue m) s) [])"
      by (simp add: RecentJobErrors_collector_def)
    then show ?thesis
      using u by (simp add: unique_errors_keys map_of_unique_errors
          RecentJobErrors_loop_distinct RecentJobErrors_loop foldl_bucket_add_zero)
  next
    case a
    with assms have "c =
        for_range (RecentJobErrors_body True m s clk jobType window) 0 (JobStats (queue m) s) []"
      by (simp add: RecentJobErrors_collector_def)
    then show ?thesis
      using a by (simp add: RecentJobErrors_loop_distinct RecentJobErrors_loop
          foldl_bucket_add_zero)
  next
    case o
    with assms have "c =
        for_range (RecentJobErrors_body False m s clk jobType window) 0 (JobStats (queue m) s) []"
      by (simp add: RecentJobErrors_collector_def)
    then show ?thesis
      using o by (simp add: RecentJobErrors_loop_distinct RecentJobErrors_loop
          foldl_bucket_add_zero)
  qed
  then show "distinct (map fst c)"
    and "map_of c t =
      (if t = jobType \<and> spec_error_records m s clk window jobType \<noteq> [] then
         Some
         \<lparr>JobErrorsForType_ID = [],
          JobErrorsForType_Count = of_nat (length (spec_error_records m s clk window jobType)),
          JobErrorsForType_Total =
            sum_list (map ErrorCount (spec_error_records m s clk window jobType)),
          JobErrorsForType_Average = 0,
          JobErrorsForType_Errors =
            (if f = UniqueErrors
             then remdups (concat (map Errors (spec_error_records m s clk window jobType)))
             else if f = AllErrors
             then concat (map Errors (spec_error_records m s clk window jobType))
             else [])\<rparr>
       else None)"
    by simp_all
qed

lemma spec_error_records_length:
  "length (spec_error_records m s clk window t) \<le> length (JobStats (queue m) s)"
proof -
  have "length (spec_error_records m s clk window t)
      \<le> length (enumerate 0 (JobStats (queue m) s))"
    unfolding spec_error_records_def
    by (rule concat_singletons_length) (auto split: option.splits)
  then show ?thesis by simp
qed

lemma RecentErrors_collector_bucket:
  assumes c: "RecentErrors_collector m s clk window f = Inr c" and kv: "(k, v) \<in> set c"
  shows "\<exists>n. 0 < n \<and> n \<le> length (JobStats (queue m) s) \<and> JobErrorsForType_Count v = of_nat n"
proof -
  from kv RecentErrors_collector_buckets(1) [OF c] have "map_of c k = Some v"
    by simp
  then have "spec_error_records m s clk window k \<noteq> []"
    and "JobErrorsForType_Count v = of_nat (length (spec_error_records m s clk window k))"
    unfolding RecentErrors_collector_buckets(2) [OF c]
    by (auto split: if_splits)
  with spec_error_records_length [of m s clk window k] show ?thesis
    by (intro exI [of _ "length (spec_error_records m s clk window k)"]) simp
qed

lemma RecentJobErrors_collector_bucket:
  assumes c: "RecentJobErrors_collector m s clk jobType window f = Inr c"
    and kv: "(k, v) \<in> set c"
  shows "\<exists>n. 0 < n \<and> n \<le> length (JobStats (queue m) s) \<and> JobErrorsForType_Count v = of_nat n"
proof -
  from kv RecentJobErrors_collector_buckets(1) [OF c] have "map_of c k = Some v"
    by simp
  then have "spec_error_records m s clk window jobType \<noteq> []"
    and "JobErrorsForType_Count v = of_nat (length (spec_error_records m s clk window jobType))"
    unfolding RecentJobErrors_collector_buckets(2) [OF c]
    by (auto split: if_splits)
  with spec_error_records_length [of m s clk window jobType] show ?thesis
    by (intro exI [of _ "length (spec_error_records m s clk window jobType)"]) simp
qed

lemma RecentErrors_bucket_count:
  assumes "length (JobStats (queue m) s) < 2 ^ 63"
    and "RecentErrors_collector m s clk window f = Inr c" and "(k, v) \<in> set c"
  shows "0 <s JobErrorsForType_Count v \<and> JobErrorsForType_Count v \<noteq> 0"
proof -
  from RecentErrors_collector_bucket [OF assms(2,3)] obtain n
    where "0 < n" "n \<le> length (JobStats (queue m) s)" "JobErrorsForType_Count v = of_nat n"
    by blast
  with assms(1) int64_of_nat_positive [of n] show ?thesis by simp
qed

lemma RecentJobErrors_bucket_count:
  assumes "length (JobStats (queue m) s) < 2 ^ 63"
    and "RecentJobErrors_collector m s clk jobType window f = Inr c" and "(k, v) \<in> set c"
  shows "0 <s JobErrorsForType_Count v \<and> JobErrorsForType_Count v \<noteq> 0"
proof -
  from RecentJobErrors_collector_bucket [OF assms(2,3)] obtain n
    where "0 < n" "n \<le> length (JobStats (queue m) s)" "JobErrorsForType_Count v = of_nat n"
    by blast
  with assms(1) int64_of_nat_positive [of n] show ?thesis by simp
qed

text \<open>What the rendering loop returns when it does not panic.\<close>

lemma render_reports_Inr:
  "render_reports reports c = Inr rs \<Longrightarrow>
   rs = reports @
        map (\<lambda>(k, v). v\<lparr>JobErrorsForType_ID := k,
                        JobErrorsForType_Average :=
                          float64 (int64_quo (JobErrorsForType_Total v)
                                     (JobErrorsForType_Count v))\<rparr>) c"
proof (induction c arbitrary: reports)
  case Nil
  then show ?case by simp
next
  case (Cons p c)
  obtain k v where p: "p = (k, v)" by (cases p)
  from Cons.prems have "render_reports
      (reports @ [v\<lparr>JobErrorsForType_ID := k,
                     JobErrorsForType_Average :=
                       float64 (int64_quo (JobErrorsForType_Total v)
                                  (JobErrorsForType_Count v))\<rparr>]) c = Inr rs"
    by (simp add: p split: if_splits)
  from Cons.IH [OF this] show ?case by (simp add: p)
qed

lemma render_reports_nonzero:
  "\<forall>(k, v)\<in>set c. JobErrorsForType_Count v \<noteq> 0 \<Longrightarrow>
   \<exists>rs. render_reports reports c = Inr rs"
  by (induction c arbitrary: reports) auto

lemma render_reports_error: "render_reports reports c = Inl e \<Longrightarrow> e = DivideByZero"
  by (induction c arbitrary: reports) (auto split: if_splits)

lemma render_reports_Inl:
  "render_reports reports c = Inl e \<Longrightarrow> \<exists>(k, v)\<in>set c. JobErrorsForType_Count v = 0"
  by (induction c arbitrary: reports) (auto split: if_splits)

text \<open>A row of the rendered report is a bucket of the collector under its key.\<close>

lemma rendered_row:
  assumes "render_reports [] c = Inr rs" and "distinct (map fst c)" and "b \<in> set rs"
  shows "\<exists>v. map_of c (JobErrorsForType_ID b) = Some v
           \<and> JobErrorsForType_Count b = JobErrorsForType_Count v
           \<and> JobErrorsForType_Total b = JobErrorsForType_Total v
           \<and> JobErrorsForType_Errors b = JobErrorsForType_Errors v"
proof -
  from render_reports_Inr [OF assms(1)] assms(3)
  obtain k v where kv: "(k, v) \<in> set c"
    and b: "b = v\<lparr>JobErrorsForType_ID := k,
                   JobErrorsForType_Average :=
                     float64 (int64_quo (JobErrorsForType_Total v)
                                (JobErrorsForType_Count v))\<rparr>"
    by auto
  from kv assms(2) have "map_of c k = Some v" by simp
  with b show ?thesis by simp
qed

lemma rendered_keys:
  assumes "render_reports [] c = Inr rs"
  shows "map JobErrorsForType_ID rs = map fst c"
  unfolding render_reports_Inr [OF assms] by (induction c) auto

text \<open>The average of a rendered row is the integer quotient of its total by its count,
  converted to a float.\<close>

lemma rendered_average:
  assumes "render_reports [] c = Inr rs" and "b \<in> set rs"
  shows "JobErrorsForType_Average b =
      float64 (int64_quo (JobErrorsForType_Total b) (JobErrorsForType_Count b))"
  using assms(2) unfolding render_reports_Inr [OF assms(1)] by auto

lemma RecentErrors_Inr:
  assumes "RecentErrors m s clk window f = Inr r"
  shows "\<exists>c. RecentErrors_collector m s clk window f = Inr c
           \<and> render_reports [] c = Inr (JobErrorsReport_Data r)"
  using assms
  by (auto simp add: RecentErrors_def split: option.splits if_splits sum.splits)

lemma RecentJobErrors_Inr:
  assumes "RecentJobErrors m s clk jobType window f = Inr r"
  shows "\<exists>c. RecentJobErrors_collector m s clk jobType window f = Inr c
           \<and> render_reports [] c = Inr (JobErrorsReport_Data r)"
  using assms
  by (auto simp add: RecentJobErrors_def split: option.splits if_splits sum.splits)

lemma RecentErrors_average:
  assumes "RecentErrors m s clk window f = Inr r" and "b \<in> set (JobErrorsReport_Data r)"
  shows "JobErrorsForType_Average b =
      float64 (int64_quo (JobErrorsForType_Total b) (JobErrorsForType_Count b))"
  using RecentErrors_Inr [OF assms(1)] assms(2) rendered_average by blast

lemma RecentJobErrors_average:
  assumes "RecentJobErrors m s clk jobType window f = Inr r"
    and "b \<in> set (JobErrorsReport_Data r)"
  shows "JobErrorsForType_Average b =
      float64 (int64_quo (JobErrorsForType_Total b) (JobErrorsForType_Count b))"
  using RecentJobErrors_Inr [OF assms(1)] assms(2) rendered_average by blast

lemma RecentErrors_collector_valid:
  "ErrorFilter_Validate f = None \<Longrightarrow> \<exists>c. RecentErrors_collector m s clk window f = Inr c"
  by (auto simp add: ErrorFilter_Validate_def RecentErrors_collector_def split: if_splits)

lemma RecentJobErrors_collector_valid:
  "ErrorFilter_Validate f = None \<Longrightarrow>
   \<exists>c. RecentJobErrors_collector m s clk jobType window f = Inr c"
  by (auto simp add: ErrorFilter_Validate_def RecentJobErrors_collector_def split: if_splits)

lemma RecentErrors_errors:
  assumes "ErrorFilter_Validate f = None" and "\<not> window \<le>s time_Second"
    and "RecentErrors m s clk window f = Inl e"
  shows "e = DivideByZero"
proof -
  obtain c where c: "RecentErrors_collector m s clk window f = Inr c"
    using RecentErrors_collector_valid [OF assms(1), of m s clk window] by blast
  with assms show ?thesis
    by (auto simp add: RecentErrors_def split: sum.splits dest: render_reports_error)
qed

lemma RecentJobErrors_errors:
  assumes "ErrorFilter_Validate f = None" and "\<not> window \<le>s time_Second"
    and "RecentJobErrors m s clk jobType window f = Inl e"
  shows "e = DivideByZero"
proof -
  obtain c where c: "RecentJobErrors_collector m s clk jobType window f = Inr c"
    using RecentJobErrors_collector_valid [OF assms(1), of m s clk jobType window] by blast
  with assms show ?thesis
    by (auto simp add: RecentJobErrors_def split: sum.splits dest: render_reports_error)
qed

lemma RecentErrors_no_panic:
  assumes "length (JobStats (queue m) s) < 2 ^ 63"
  shows "RecentErrors m s clk window f \<noteq> Inl DivideByZero"
proof
  assume "RecentErrors m s clk window f = Inl DivideByZero"
  then obtain c where "RecentErrors_collector m s clk window f = Inr c"
    and "render_reports [] c = Inl DivideByZero"
    by (auto simp add: RecentErrors_def ErrorFilter_Validate_def RecentErrors_collector_def
        split: option.splits if_splits sum.splits)
  with RecentErrors_bucket_count [OF assms] render_reports_Inl [of "[]" c DivideByZero]
  show False by blast
qed

lemma RecentJobErrors_no_panic:
  assumes "length (JobStats (queue m) s) < 2 ^ 63"
  shows "RecentJobErrors m s clk jobType window f \<noteq> Inl DivideByZero"
proof
  assume "RecentJobErrors m s clk jobType window f = Inl DivideByZero"
  then obtain c where "RecentJobErrors_collector m s clk jobType window f = Inr c"
    and "render_reports [] c = Inl DivideByZero"
    by (auto simp add: RecentJobErrors_def ErrorFilter_Validate_def
        RecentJobErrors_collector_def split: option.splits if_splits sum.splits)
  with RecentJobErrors_bucket_count [OF assms] render_reports_Inl [of "[]" c DivideByZero]
  show False by blast
qed

text \<open>With a valid filter, a window of more than one second and a stream of fewer than
  \<open>2 ^ 63\<close> records, \<^verbatim>\<open>RecentErrors\<close> and \<^verbatim>\<open>RecentJobErrors\<close> return a report.\<close>

lemma RecentErrors_returns:
  assumes "ErrorFilter_Validate f = None" and "time_Second <s window"
    and "length (JobStats (queue m) s) < 2 ^ 63"
  shows "\<exists>r. RecentErrors m s clk window f = Inr r"
proof (cases "RecentErrors m s clk window f")
  case (Inl e)
  with RecentErrors_errors [OF assms(1), of window m s clk e] assms(2)
  have "e = DivideByZero" by (simp add: signed.not_le)
  with Inl RecentErrors_no_panic [OF assms(3), of clk window f] show ?thesis by simp
next
  case (Inr r)
  then show ?thesis by simp
qed

lemma RecentJobErrors_returns:
  assumes "ErrorFilter_Validate f = None" and "time_Second <s window"
    and "length (JobStats (queue m) s) < 2 ^ 63"
  shows "\<exists>r. RecentJobErrors m s clk jobType window f = Inr r"
proof (cases "RecentJobErrors m s clk jobType window f")
  case (Inl e)
  with RecentJobErrors_errors [OF assms(1), of window m s clk jobType e] assms(2)
  have "e = DivideByZero" by (simp add: signed.not_le)
  with Inl RecentJobErrors_no_panic [OF assms(3), of clk jobType window f] show ?thesis by simp
next
  case (Inr r)
  then show ?thesis by simp
qed

text \<open>
  C6. Whenever \<^verbatim>\<open>RecentErrors\<close> returns a report, its rows have distinct types, there
  is a row for exactly the types with a matching record, and the row of a type has
  \<open>count\<close> the number of the matching records of the type and \<open>totalErrors\<close> the sum of
  their \<open>errorCount\<close>, the same under all three filters. With \<^verbatim>\<open>AllErrors\<close> the
  \<open>errors\<close> of the row are the errors of the matching records, one after the other
  with every repetition; with \<^verbatim>\<open>UniqueErrors\<close> they are the same strings without
  repetition; with \<^verbatim>\<open>StatsOnly\<close> the list is empty. \<^verbatim>\<open>RecentJobErrors\<close> does the same
  for the one requested type. Both return a report when the filter is valid, the window
  is longer than one second and the stream delivers fewer than \<open>2 ^ 63\<close> records.
\<close>

theorem error_filter_modes:
  "(\<forall>r. RecentErrors m s clk window f = Inr r \<longrightarrow>
       distinct (map JobErrorsForType_ID (JobErrorsReport_Data r))
     \<and> (\<forall>t. t \<in> set (map JobErrorsForType_ID (JobErrorsReport_Data r))
              \<longleftrightarrow> spec_error_records m s clk window t \<noteq> [])
     \<and> (\<forall>b\<in>set (JobErrorsReport_Data r).
          JobErrorsForType_Count b
            = of_nat (length (spec_error_records m s clk window (JobErrorsForType_ID b)))
        \<and> JobErrorsForType_Total b
            = sum_list (map ErrorCount
                (spec_error_records m s clk window (JobErrorsForType_ID b)))
        \<and> (f = AllErrors \<longrightarrow>
             JobErrorsForType_Errors b
               = concat (map Errors
                   (spec_error_records m s clk window (JobErrorsForType_ID b))))
        \<and> (f = UniqueErrors \<longrightarrow>
             distinct (JobErrorsForType_Errors b)
           \<and> set (JobErrorsForType_Errors b)
               = set (concat (map Errors
                   (spec_error_records m s clk window (JobErrorsForType_ID b)))))
        \<and> (f = StatsOnly \<longrightarrow> JobErrorsForType_Errors b = [])))
   \<and> (\<forall>r. RecentJobErrors m s clk jobType window f = Inr r \<longrightarrow>
       distinct (map JobErrorsForType_ID (JobErrorsReport_Data r))
     \<and> (\<forall>t. t \<in> set (map JobErrorsForType_ID (JobErrorsReport_Data r))
              \<longleftrightarrow> t = jobType \<and> spec_error_records m s clk window jobType \<noteq> [])
     \<and> (\<forall>b\<in>set (JobErrorsReport_Data r).
          JobErrorsForType_Count b
            = of_nat (length (spec_error_records m s clk window jobType))
        \<and> JobErrorsForType_Total b
            = sum_list (map ErrorCount (spec_error_records m s clk window jobType))
        \<and> (f = AllErrors \<longrightarrow>
             JobErrorsForType_Errors b
               = concat (map Errors (spec_error_records m s clk window jobType)))
        \<and> (f = UniqueErrors \<longrightarrow>
             distinct (JobErrorsForType_Errors b)
           \<and> set (JobErrorsForType_Errors b)
               = set (concat (map Errors (spec_error_records m s clk window jobType))))
        \<and> (f = StatsOnly \<longrightarrow> JobErrorsForType_Errors b = [])))
   \<and> (ErrorFilter_Validate f = None \<and> time_Second <s window
        \<and> length (JobStats (queue m) s) < 2 ^ 63 \<longrightarrow>
       (\<exists>r. RecentErrors m s clk window f = Inr r)
     \<and> (\<exists>r. RecentJobErrors m s clk jobType window f = Inr r))"
proof (intro conjI allI impI)
  fix r assume r: "RecentErrors m s clk window f = Inr r"
  from RecentErrors_Inr [OF r]
  obtain c where c: "RecentErrors_collector m s clk window f = Inr c"
    and rs: "render_reports [] c = Inr (JobErrorsReport_Data r)"
    by blast
  note d = RecentErrors_collector_buckets(1) [OF c]
  note b = RecentErrors_collector_buckets(2) [OF c]
  show "distinct (map JobErrorsForType_ID (JobErrorsReport_Data r))"
    using d by (simp add: rendered_keys [OF rs])
  show "t \<in> set (map JobErrorsForType_ID (JobErrorsReport_Data r))
          \<longleftrightarrow> spec_error_records m s clk window t \<noteq> []" for t
    unfolding rendered_keys [OF rs] keys_of_map_of b by simp
  show "\<forall>b\<in>set (JobErrorsReport_Data r).
          JobErrorsForType_Count b
            = of_nat (length (spec_error_records m s clk window (JobErrorsForType_ID b)))
        \<and> JobErrorsForType_Total b
            = sum_list (map ErrorCount
                (spec_error_records m s clk window (JobErrorsForType_ID b)))
        \<and> (f = AllErrors \<longrightarrow>
             JobErrorsForType_Errors b
               = concat (map Errors
                   (spec_error_records m s clk window (JobErrorsForType_ID b))))
        \<and> (f = UniqueErrors \<longrightarrow>
             distinct (JobErrorsForType_Errors b)
           \<and> set (JobErrorsForType_Errors b)
               = set (concat (map Errors
                   (spec_error_records m s clk window (JobErrorsForType_ID b)))))
        \<and> (f = StatsOnly \<longrightarrow> JobErrorsForType_Errors b = [])"
  proof
    fix row assume "row \<in> set (JobErrorsReport_Data r)"
    from rendered_row [OF rs d this] obtain v
      where v: "map_of c (JobErrorsForType_ID row) = Some v"
        and eq: "JobErrorsForType_Count row = JobErrorsForType_Count v"
          "JobErrorsForType_Total row = JobErrorsForType_Total v"
          "JobErrorsForType_Errors row = JobErrorsForType_Errors v"
      by blast
    from v show "JobErrorsForType_Count row
            = of_nat (length (spec_error_records m s clk window (JobErrorsForType_ID row)))
        \<and> JobErrorsForType_Total row
            = sum_list (map ErrorCount
                (spec_error_records m s clk window (JobErrorsForType_ID row)))
        \<and> (f = AllErrors \<longrightarrow>
             JobErrorsForType_Errors row
               = concat (map Errors
                   (spec_error_records m s clk window (JobErrorsForType_ID row))))
        \<and> (f = UniqueErrors \<longrightarrow>
             distinct (JobErrorsForType_Errors row)
           \<and> set (JobErrorsForType_Errors row)
               = set (concat (map Errors
                   (spec_error_records m s clk window (JobErrorsForType_ID row)))))
        \<and> (f = StatsOnly \<longrightarrow> JobErrorsForType_Errors row = [])"
      unfolding eq b
      by (cases "spec_error_records m s clk window (JobErrorsForType_ID row) = []")
        (auto simp add: ErrorFilter_distinct)
  qed
next
  fix r assume r: "RecentJobErrors m s clk jobType window f = Inr r"
  from RecentJobErrors_Inr [OF r]
  obtain c where c: "RecentJobErrors_collector m s clk jobType window f = Inr c"
    and rs: "render_reports [] c = Inr (JobErrorsReport_Data r)"
    by blast
  note d = RecentJobErrors_collector_buckets(1) [OF c]
  note b = RecentJobErrors_collector_buckets(2) [OF c]
  show "distinct (map JobErrorsForType_ID (JobErrorsReport_Data r))"
    using d by (simp add: rendered_keys [OF rs])
  show "t \<in> set (map JobErrorsForType_ID (JobErrorsReport_Data r))
          \<longleftrightarrow> t = jobType \<and> spec_error_records m s clk window jobType \<noteq> []" for t
    unfolding rendered_keys [OF rs] keys_of_map_of b by simp
  show "\<forall>b\<in>set (JobErrorsReport_Data r).
          JobErrorsForType_Count b
            = of_nat (length (spec_error_records m s clk window jobType))
        \<and> JobErrorsForType_Total b
            = sum_list (map ErrorCount (spec_error_records m s clk window jobType))
        \<and> (f = AllErrors \<longrightarrow>
             JobErrorsForType_Errors b
               = concat (map Errors (spec_error_records m s clk window jobType)))
        \<and> (f = UniqueErrors \<longrightarrow>
             distinct (JobErrorsForType_Errors b)
           \<and> set (JobErrorsForType_Errors b)
               = set (concat (map Errors (spec_error_records m s clk window jobType))))
        \<and> (f = StatsOnly \<longrightarrow> JobErrorsForType_Errors b = [])"
  proof
    fix row assume "row \<in> set (JobErrorsReport_Data r)"
    from rendered_row [OF rs d this] obtain v
      where v: "map_of c (JobErrorsForType_ID row) = Some v"
        and eq: "JobErrorsForType_Count row = JobErrorsForType_Count v"
          "JobErrorsForType_Total row = JobErrorsForType_Total v"
          "JobErrorsForType_Errors row = JobErrorsForType_Errors v"
      by blast
    from v show "JobErrorsForType_Count row
            = of_nat (length (spec_error_records m s clk window jobType))
        \<and> JobErrorsForType_Total row
            = sum_list (map ErrorCount (spec_error_records m s clk window jobType))
        \<and> (f = AllErrors \<longrightarrow>
             JobErrorsForType_Errors row
               = concat (map Errors (spec_error_records m s clk window jobType)))
        \<and> (f = UniqueErrors \<longrightarrow>
             distinct (JobErrorsForType_Errors row)
           \<and> set (JobErrorsForType_Errors row)
               = set (concat (map Errors (spec_error_records m s clk window jobType))))
        \<and> (f = StatsOnly \<longrightarrow> JobErrorsForType_Errors row = [])"
      unfolding eq b
      by (cases "JobErrorsForType_ID row = jobType
                 \<and> spec_error_records m s clk window jobType \<noteq> []")
        (auto simp add: ErrorFilter_distinct)
  qed
next
  assume "ErrorFilter_Validate f = None \<and> time_Second <s window
        \<and> length (JobStats (queue m) s) < 2 ^ 63"
  then show "\<exists>r. RecentErrors m s clk window f = Inr r"
    and "\<exists>r. RecentJobErrors m s clk jobType window f = Inr r"
    using RecentErrors_returns [of f window m s clk]
      RecentJobErrors_returns [of f window m s clk jobType]
    by simp_all
qed

text \<open>On the small queue, the scenario of two failed jobs of type \<open>unittest\<close>: three
  errors, one of them repeated, and one error.\<close>

theorem error_filter_modes_witness:
  "(\<exists>r b. RecentErrors testManager testQueue (clock_at testNow) (60 * time_Second) UniqueErrors = Inr r
        \<and> b \<in> set (JobErrorsReport_Data r) \<and> JobErrorsForType_ID b = ''unittest''
        \<and> spec_error_records testManager testQueue (clock_at testNow) (60 * time_Second) ''unittest''
            = [Status jobA, Status jobB]
        \<and> JobErrorsForType_Count b = 2 \<and> JobErrorsForType_Total b = 4
        \<and> distinct (JobErrorsForType_Errors b)
        \<and> set (JobErrorsForType_Errors b) = {''e1'', ''e2'', ''e3''})
   \<and> (\<exists>r b. RecentErrors testManager testQueue (clock_at testNow) (60 * time_Second) AllErrors = Inr r
        \<and> b \<in> set (JobErrorsReport_Data r) \<and> JobErrorsForType_ID b = ''unittest''
        \<and> JobErrorsForType_Count b = 2 \<and> JobErrorsForType_Total b = 4
        \<and> JobErrorsForType_Errors b = [''e1'', ''e2'', ''e1'', ''e3''])
   \<and> (\<exists>r b. RecentJobErrors testManager testQueue (clock_at testNow) ''unittest'' (60 * time_Second)
              StatsOnly = Inr r
        \<and> b \<in> set (JobErrorsReport_Data r) \<and> JobErrorsForType_ID b = ''unittest''
        \<and> JobErrorsForType_Count b = 2 \<and> JobErrorsForType_Total b = 4
        \<and> JobErrorsForType_Errors b = [])"
proof -
  let ?row = "\<lambda>errs. \<lparr>JobErrorsForType_ID = ''unittest'', JobErrorsForType_Count = 2,
      JobErrorsForType_Total = 4, JobErrorsForType_Average = 2, JobErrorsForType_Errors = errs\<rparr>"
  let ?lint = "\<lambda>errs. \<lparr>JobErrorsForType_ID = ''lint'', JobErrorsForType_Count = 2,
      JobErrorsForType_Total = 3, JobErrorsForType_Average = 1, JobErrorsForType_Errors = errs\<rparr>"
  let ?ru = "\<lparr>JobErrorsReport_Period = 60 * time_Second, JobErrorsReport_FilteredByType = False,
             JobErrorsReport_Data = [?row [''e2'', ''e1'', ''e3''], ?lint [''e6'', ''e5'']]\<rparr>"
  let ?ra = "\<lparr>JobErrorsReport_Period = 60 * time_Second, JobErrorsReport_FilteredByType = False,
             JobErrorsReport_Data =
               [?row [''e1'', ''e2'', ''e1'', ''e3''], ?lint [''e5'', ''e6'', ''e5'']]\<rparr>"
  let ?rs = "\<lparr>JobErrorsReport_Period = 60 * time_Second, JobErrorsReport_FilteredByType = True,
             JobErrorsReport_Data = [?row []]\<rparr>"
  have recs: "spec_error_records testManager testQueue (clock_at testNow) (60 * time_Second)
      ''unittest'' = [Status jobA, Status jobB]"
    by code_simp
  have vals: "ErrorCount (Status jobA) = 3" "ErrorCount (Status jobB) = 1"
    "Errors (Status jobA) = [''e1'', ''e2'', ''e1'']" "Errors (Status jobB) = [''e3'']"
    by code_simp+
  have u: "RecentErrors testManager testQueue (clock_at testNow) (60 * time_Second) UniqueErrors
      = Inr ?ru"
    by code_simp
  have a: "RecentErrors testManager testQueue (clock_at testNow) (60 * time_Second) AllErrors
      = Inr ?ra"
    by code_simp
  have s: "RecentJobErrors testManager testQueue (clock_at testNow) ''unittest'' (60 * time_Second)
        StatsOnly = Inr ?rs"
    by code_simp
  have in_u: "?row [''e2'', ''e1'', ''e3''] \<in> set (JobErrorsReport_Data ?ru)"
    and in_a: "?row [''e1'', ''e2'', ''e1'', ''e3''] \<in> set (JobErrorsReport_Data ?ra)"
    and in_s: "?row [] \<in> set (JobErrorsReport_Data ?rs)"
    by simp_all
  note U = error_filter_modes [of testManager testQueue "clock_at testNow" "60 * time_Second"
      UniqueErrors "''unittest''", THEN conjunct1, rule_format, OF u,
      THEN conjunct2, THEN conjunct2, rule_format, OF in_u]
  note A = error_filter_modes [of testManager testQueue "clock_at testNow" "60 * time_Second"
      AllErrors "''unittest''", THEN conjunct1, rule_format, OF a,
      THEN conjunct2, THEN conjunct2, rule_format, OF in_a]
  note S = error_filter_modes [of testManager testQueue "clock_at testNow" "60 * time_Second"
      StatsOnly "''unittest''", THEN conjunct2, THEN conjunct1, rule_format, OF s,
      THEN conjunct2, THEN conjunct2, rule_format, OF in_s]
  have 1: "\<exists>b. b \<in> set (JobErrorsReport_Data ?ru) \<and> JobErrorsForType_ID b = ''unittest''
        \<and> JobErrorsForType_Count b = 2 \<and> JobErrorsForType_Total b = 4
        \<and> distinct (JobErrorsForType_Errors b)
        \<and> set (JobErrorsForType_Errors b) = {''e1'', ''e2'', ''e3''}"
    using U in_u by (intro exI [of _ "?row [''e2'', ''e1'', ''e3'']"]) (auto simp add: recs vals)
  have 2: "\<exists>b. b \<in> set (JobErrorsReport_Data ?ra) \<and> JobErrorsForType_ID b = ''unittest''
        \<and> JobErrorsForType_Count b = 2 \<and> JobErrorsForType_Total b = 4
        \<and> JobErrorsForType_Errors b = [''e1'', ''e2'', ''e1'', ''e3'']"
    using A in_a by (intro exI [of _ "?row [''e1'', ''e2'', ''e1'', ''e3'']"]) (auto simp add: recs vals)
  have 3: "\<exists>b. b \<in> set (JobErrorsReport_Data ?rs) \<and> JobErrorsForType_ID b = ''unittest''
        \<and> JobErrorsForType_Count b = 2 \<and> JobErrorsForType_Total b = 4
        \<and> JobErrorsForType_Errors b = []"
    using S in_s by (intro exI [of _ "?row []"]) (auto simp add: recs vals)
  from u 1 recs a 2 s 3 show ?thesis
    by blast
qed

subsection \<open>Validation of the filter and of the window\<close>

text \<open>
  C5. With a valid filter, \<^verbatim>\<open>RecentTiming\<close>, \<^verbatim>\<open>RecentErrors\<close> and
  \<^verbatim>\<open>RecentJobErrors\<close> called with a window of at most one second return the error
  "must specify windows greater than one second", a \<open>ValidationError\<close>, and no report,
  whatever the queue holds: the stream is not looked at. Called with a window greater
  than one second they return no validation error.
\<close>

theorem window_validation:
  assumes "RuntimeFilter_Validate g = None" and "ErrorFilter_Validate f = None"
  shows "(window \<le>s time_Second \<longrightarrow>
            RecentTiming m s clk window g = Inl WindowTooShort
          \<and> RecentErrors m s clk window f = Inl WindowTooShort
          \<and> RecentJobErrors m s clk jobType window f = Inl WindowTooShort
          \<and> isValidationError WindowTooShort)
       \<and> (time_Second <s window \<longrightarrow>
            (\<forall>e. RecentTiming m s clk window g = Inl e \<longrightarrow> \<not> isValidationError e)
          \<and> (\<forall>e. RecentErrors m s clk window f = Inl e \<longrightarrow> \<not> isValidationError e)
          \<and> (\<forall>e. RecentJobErrors m s clk jobType window f = Inl e \<longrightarrow> \<not> isValidationError e))"
proof (intro conjI impI allI)
  assume "window \<le>s time_Second"
  with assms show "RecentTiming m s clk window g = Inl WindowTooShort"
    "RecentErrors m s clk window f = Inl WindowTooShort"
    "RecentJobErrors m s clk jobType window f = Inl WindowTooShort"
    by (simp_all add: RecentTiming_def RecentErrors_def RecentJobErrors_def)
next
  show "isValidationError WindowTooShort" by simp
next
  fix e assume "time_Second <s window" and "RecentTiming m s clk window g = Inl e"
  then have "e = DivideByZero"
    using RecentTiming_errors [OF assms(1)] by (simp add: signed.not_le)
  then show "\<not> isValidationError e" by simp
next
  fix e assume "time_Second <s window" and "RecentErrors m s clk window f = Inl e"
  then have "e = DivideByZero"
    using RecentErrors_errors [OF assms(2)] by (simp add: signed.not_le)
  then show "\<not> isValidationError e" by simp
next
  fix e assume "time_Second <s window" and "RecentJobErrors m s clk jobType window f = Inl e"
  then have "e = DivideByZero"
    using RecentJobErrors_errors [OF assms(2)] by (simp add: signed.not_le)
  then show "\<not> isValidationError e" by simp
qed

text \<open>On the small queue, with a window of exactly one second and with a window one
  nanosecond longer.\<close>

theorem window_validation_witness:
  "RuntimeFilter_Validate Latency = None \<and> ErrorFilter_Validate AllErrors = None
   \<and> time_Second \<le>s time_Second
   \<and> RecentTiming testManager testQueue (clock_at testNow) time_Second Latency = Inl WindowTooShort
   \<and> RecentErrors testManager testQueue (clock_at testNow) time_Second AllErrors = Inl WindowTooShort
   \<and> RecentJobErrors testManager testQueue (clock_at testNow) ''lint'' time_Second AllErrors
       = Inl WindowTooShort
   \<and> time_Second <s time_Second + 1
   \<and> \<not> (\<exists>e. RecentTiming testManager testQueue (clock_at testNow) (time_Second + 1) Latency = Inl e
            \<and> isValidationError e)
   \<and> \<not> (\<exists>e. RecentErrors testManager testQueue (clock_at testNow) (time_Second + 1) AllErrors = Inl e
            \<and> isValidationError e)"
proof -
  have v: "RuntimeFilter_Validate Latency = None" "ErrorFilter_Validate AllErrors = None"
    by (simp_all add: RuntimeFilter_Validate_def ErrorFilter_Validate_def)
  have w: "time_Second \<le>s time_Second" "time_Second <s time_Second + 1"
    by (simp_all add: time_Second_def)
  show ?thesis
    using window_validation [OF v, of time_Second testManager testQueue "clock_at testNow" "''lint''"]
      window_validation [OF v, of "time_Second + 1" testManager testQueue "clock_at testNow" "''lint''"]
      v w
    by blast
qed

text \<open>
  C9. A filter value outside the enumerated set of the operation makes \<^verbatim>\<open>JobStatus\<close>,
  \<^verbatim>\<open>JobIDsByState\<close> and \<^verbatim>\<open>RecentTiming\<close> return a \<open>ValidationError\<close> and no report.
  Whenever one of the three operations returns a report, its \<open>filter\<close> field is the
  filter value it was called with. And they do return one: \<^verbatim>\<open>JobStatus\<close> with every
  valid filter, \<^verbatim>\<open>JobIDsByState\<close> with every valid filter when no type is asked for
  (with a type, a failed lookup makes it panic), \<^verbatim>\<open>RecentTiming\<close> with every valid
  filter, a window longer than one second and streams of fewer than \<open>2 ^ 63\<close> values.
\<close>

theorem filter_verbatim_or_rejected:
  "(f \<noteq> InProgress_filter \<and> f \<noteq> Pending \<and> f \<noteq> Stale \<longrightarrow>
       (\<exists>e. JobStatus m s clk LockTimeout f = Inl e \<and> isValidationError e)
     \<and> (\<exists>e. JobIDsByState m s clk LockTimeout jobType f = Inl e \<and> isValidationError e))
   \<and> (g \<noteq> Duration \<and> g \<noteq> Latency \<and> g \<noteq> Running \<longrightarrow>
       (\<exists>e. RecentTiming m s clk window g = Inl e \<and> isValidationError e))
   \<and> (f = InProgress_filter \<or> f = Pending \<or> f = Stale \<longrightarrow>
       (\<exists>r. JobStatus m s clk LockTimeout f = Inr r \<and> JobStatusReport_Filter r = f))
   \<and> (\<forall>r. JobStatus m s clk LockTimeout f = Inr r \<longrightarrow> JobStatusReport_Filter r = f)
   \<and> (\<forall>r. JobIDsByState m s clk LockTimeout jobType f = Inr r \<longrightarrow> JobReportIDs_Filter r = f)
   \<and> (\<forall>r. RecentTiming m s clk window g = Inr r \<longrightarrow> JobRuntimeReport_Filter r = g)
   \<and> (f = InProgress_filter \<or> f = Pending \<or> f = Stale \<longrightarrow>
       (\<exists>r. JobIDsByState m s clk LockTimeout [] f = Inr r \<and> JobReportIDs_Filter r = f))
   \<and> ((g = Duration \<or> g = Latency \<or> g = Running) \<and> time_Second <s window
        \<and> length (JobStats (queue m) s) < 2 ^ 63 \<and> length (Results (queue m) s) < 2 ^ 63 \<longrightarrow>
       (\<exists>r. RecentTiming m s clk window g = Inr r \<and> JobRuntimeReport_Filter r = g))"
proof (intro conjI impI allI)
  assume "f \<noteq> InProgress_filter \<and> f \<noteq> Pending \<and> f \<noteq> Stale"
  then show "\<exists>e. JobStatus m s clk LockTimeout f = Inl e \<and> isValidationError e"
    "\<exists>e. JobIDsByState m s clk LockTimeout jobType f = Inl e \<and> isValidationError e"
    by (simp_all add: JobStatus_def JobIDsByState_def CounterFilter_Validate_def)
next
  assume "g \<noteq> Duration \<and> g \<noteq> Latency \<and> g \<noteq> Running"
  then show "\<exists>e. RecentTiming m s clk window g = Inl e \<and> isValidationError e"
    by (simp add: RecentTiming_def RuntimeFilter_Validate_def)
next
  assume "f = InProgress_filter \<or> f = Pending \<or> f = Stale"
  then show "\<exists>r. JobStatus m s clk LockTimeout f = Inr r \<and> JobStatusReport_Filter r = f"
    by (auto simp add: JobStatus_def CounterFilter_Validate_def Let_def)
next
  fix r assume "JobStatus m s clk LockTimeout f = Inr r"
  then show "JobStatusReport_Filter r = f"
    by (auto simp add: JobStatus_def Let_def split: option.splits)
next
  fix r assume "JobIDsByState m s clk LockTimeout jobType f = Inr r"
  then show "JobReportIDs_Filter r = f"
    by (auto simp add: JobIDsByState_def split: option.splits sum.splits)
next
  fix r assume "RecentTiming m s clk window g = Inr r"
  then show "JobRuntimeReport_Filter r = g"
    by (auto simp add: RecentTiming_def split: option.splits sum.splits if_splits)
next
  assume "f = InProgress_filter \<or> f = Pending \<or> f = Stale"
  then have "CounterFilter_Validate f = None"
    by (auto simp add: CounterFilter_Validate_def)
  from JobIDsByState_resolved [OF this, of "[]" m s clk LockTimeout]
  show "\<exists>r. JobIDsByState m s clk LockTimeout [] f = Inr r \<and> JobReportIDs_Filter r = f"
    by simp
next
  assume a: "(g = Duration \<or> g = Latency \<or> g = Running) \<and> time_Second <s window
        \<and> length (JobStats (queue m) s) < 2 ^ 63 \<and> length (Results (queue m) s) < 2 ^ 63"
  then have "RuntimeFilter_Validate g = None"
    by (auto simp add: RuntimeFilter_Validate_def)
  from RecentTiming_returns [OF this, of window m s clk] a
  obtain r where r: "RecentTiming m s clk window g = Inr r"
    by blast
  then have "JobRuntimeReport_Filter r = g"
    by (auto simp add: RecentTiming_def split: option.splits sum.splits if_splits)
  with r show "\<exists>r. RecentTiming m s clk window g = Inr r \<and> JobRuntimeReport_Filter r = g"
    by blast
qed

theorem filter_verbatim_or_rejected_witness:
  "''bogus'' \<noteq> InProgress_filter \<and> ''bogus'' \<noteq> Pending \<and> ''bogus'' \<noteq> Stale
   \<and> ''bogus'' \<noteq> Duration \<and> ''bogus'' \<noteq> Latency \<and> ''bogus'' \<noteq> Running
   \<and> (\<exists>e. JobStatus testManager testQueue (clock_at testNow) (900 * time_Second) ''bogus'' = Inl e
          \<and> isValidationError e)
   \<and> (\<exists>e. JobIDsByState testManager testQueue (clock_at testNow) (900 * time_Second) [] ''bogus''
            = Inl e
          \<and> isValidationError e)
   \<and> (\<exists>e. RecentTiming testManager testQueue (clock_at testNow) (60 * time_Second) ''bogus'' = Inl e
          \<and> isValidationError e)
   \<and> (\<exists>r. JobStatus testManager testQueue (clock_at testNow) (900 * time_Second) Pending = Inr r
          \<and> JobStatusReport_Filter r = Pending)
   \<and> (\<exists>r. JobIDsByState testManager testQueue (clock_at testNow) (900 * time_Second) [] Pending
            = Inr r
          \<and> JobReportIDs_Filter r = Pending \<and> JobReportIDs_IDs r = [''D'', ''E''])
   \<and> (\<exists>r. RecentTiming testManager testQueue (clock_at testNow) (60 * time_Second) Running = Inr r
          \<and> JobRuntimeReport_Filter r = Running)"
proof -
  have n: "''bogus'' \<noteq> InProgress_filter \<and> ''bogus'' \<noteq> Pending \<and> ''bogus'' \<noteq> Stale"
    "''bogus'' \<noteq> Duration \<and> ''bogus'' \<noteq> Latency \<and> ''bogus'' \<noteq> Running"
    by (simp_all add: filter_values)
  have i: "JobIDsByState testManager testQueue (clock_at testNow) (900 * time_Second) [] Pending
      = Inr \<lparr>JobReportIDs_Filter = Pending, JobReportIDs_Type = [],
             JobReportIDs_IDs = [''D'', ''E'']\<rparr>"
    by code_simp
  have t: "RecentTiming testManager testQueue (clock_at testNow) (60 * time_Second) Running
      = Inr \<lparr>JobRuntimeReport_Filter = Running, JobRuntimeReport_Period = 60 * time_Second,
             JobRuntimeReport_Stats =
               [\<lparr>JobRuntimes_ID = ''cleanup'', JobRuntimes_Duration = 3600 * time_Second\<rparr>]\<rparr>"
    by code_simp
  show ?thesis
    using filter_verbatim_or_rejected [of "''bogus''" testManager testQueue "clock_at testNow"
        "900 * time_Second" "[]" "''bogus''" "60 * time_Second"]
      filter_verbatim_or_rejected [of Pending testManager testQueue "clock_at testNow"
        "900 * time_Second" "[]" Running "60 * time_Second"]
      n i t
    by simp
qed

subsection \<open>No bucket without a record\<close>

text \<open>
  C10. When the streams deliver fewer than \<open>2 ^ 63\<close> values (the count of a bucket is a
  64-bit integer that each matching record increments), every bucket that
  \<^verbatim>\<open>RecentErrors\<close> and \<^verbatim>\<open>RecentJobErrors\<close> render has a count greater than zero, every
  bucket that \<^verbatim>\<open>RecentTiming\<close> renders holds at least one duration and its length is
  not zero as a \<^verbatim>\<open>Duration\<close>, and none of the three operations panics with a division
  by zero.
\<close>

theorem buckets_made_by_a_record:
  assumes "length (JobStats (queue m) s) < 2 ^ 63" and "length (Results (queue m) s) < 2 ^ 63"
  shows "(\<forall>c. RecentErrors_collector m s clk window f = Inr c \<longrightarrow>
            (\<forall>(k, v)\<in>set c. 0 <s JobErrorsForType_Count v \<and> JobErrorsForType_Count v \<noteq> 0))
       \<and> (\<forall>c. RecentJobErrors_collector m s clk jobType window f = Inr c \<longrightarrow>
            (\<forall>(k, v)\<in>set c. 0 <s JobErrorsForType_Count v \<and> JobErrorsForType_Count v \<noteq> 0))
       \<and> (\<forall>c. RecentTiming_counters m s clk window g = Inr c \<longrightarrow>
            (\<forall>(k, v)\<in>set c. 1 \<le> length v \<and> (of_nat (length v) :: time_Duration) \<noteq> 0))
       \<and> RecentErrors m s clk window f \<noteq> Inl DivideByZero
       \<and> RecentJobErrors m s clk jobType window f \<noteq> Inl DivideByZero
       \<and> RecentTiming m s clk window g \<noteq> Inl DivideByZero"
proof (intro conjI allI impI)
  fix c assume "RecentErrors_collector m s clk window f = Inr c"
  with RecentErrors_bucket_count [OF assms(1)]
  show "\<forall>(k, v)\<in>set c. 0 <s JobErrorsForType_Count v \<and> JobErrorsForType_Count v \<noteq> 0"
    by fast
next
  fix c assume "RecentJobErrors_collector m s clk jobType window f = Inr c"
  with RecentJobErrors_bucket_count [OF assms(1)]
  show "\<forall>(k, v)\<in>set c. 0 <s JobErrorsForType_Count v \<and> JobErrorsForType_Count v \<noteq> 0"
    by fast
next
  fix c assume "RecentTiming_counters m s clk window g = Inr c"
  with RecentTiming_bucket_length [OF assms]
  show "\<forall>(k, v)\<in>set c. 1 \<le> length v \<and> (of_nat (length v) :: time_Duration) \<noteq> 0"
    by fast
next
  show "RecentErrors m s clk window f \<noteq> Inl DivideByZero"
    by (rule RecentErrors_no_panic [OF assms(1)])
  show "RecentJobErrors m s clk jobType window f \<noteq> Inl DivideByZero"
    by (rule RecentJobErrors_no_panic [OF assms(1)])
  show "RecentTiming m s clk window g \<noteq> Inl DivideByZero"
    by (rule RecentTiming_no_panic [OF assms])
qed

theorem buckets_made_by_a_record_witness:
  "length (JobStats (queue testManager) testQueue) < 2 ^ 63
   \<and> length (Results (queue testManager) testQueue) < 2 ^ 63
   \<and> RecentErrors testManager testQueue (clock_at testNow) (60 * time_Second) AllErrors
       \<noteq> Inl DivideByZero
   \<and> RecentJobErrors testManager testQueue (clock_at testNow) ''lint'' (60 * time_Second) UniqueErrors
       \<noteq> Inl DivideByZero
   \<and> RecentTiming testManager testQueue (clock_at testNow) (60 * time_Second) Duration
       \<noteq> Inl DivideByZero
   \<and> (\<exists>c v. RecentTiming_counters testManager testQueue (clock_at testNow) (60 * time_Second) Duration
               = Inr c
            \<and> (''unittest'', v) \<in> set c \<and> 1 \<le> length v \<and> (of_nat (length v) :: time_Duration) \<noteq> 0)"
proof -
  let ?c = "[(''unittest'', [20 * time_Second, 15 * time_Second]), (''lint'', [6 * time_Second, 5 * time_Second])]"
  have n: "length (JobStats (queue testManager) testQueue) = 7"
    "length (Results (queue testManager) testQueue) = 4"
    by code_simp+
  then have l: "length (JobStats (queue testManager) testQueue) < 2 ^ 63"
    "length (Results (queue testManager) testQueue) < 2 ^ 63"
    by simp_all
  have c: "RecentTiming_counters testManager testQueue (clock_at testNow) (60 * time_Second) Duration
      = Inr ?c"
    by code_simp
  have i: "(''unittest'', [20 * time_Second, 15 * time_Second]) \<in> set ?c"
    by simp
  note T = buckets_made_by_a_record [OF l, of "clock_at testNow" "60 * time_Second"]
  have "1 \<le> length [20 * time_Second, 15 * time_Second :: time_Duration]
      \<and> (of_nat (length [20 * time_Second, 15 * time_Second :: time_Duration]) :: time_Duration) \<noteq> 0"
    using T [of AllErrors "''lint''" Duration, THEN conjunct2, THEN conjunct2, THEN conjunct1,
        rule_format, OF c i]
    by simp
  with c i l T [of AllErrors "''lint''" Duration] T [of UniqueErrors "''lint''" Duration]
  show ?thesis
    by blast
qed

subsection \<open>Where the code departs from the specification\<close>

text \<open>
  C1. \<^verbatim>\<open>JobIDsByState\<close> with a type restriction does not look at the type of a job
  whose lookup succeeds: asked for the in-progress jobs of type \<open>unittest\<close>, it returns
  job \<open>C\<close>, whose type is \<open>cleanup\<close>. And a record whose lookup fails is not skipped:
  the condition calls \<^verbatim>\<open>job.Type()\<close> on the nil job, which panics.
\<close>

theorem JobIDsByState_type_restriction_ignored:
  "JobIDsByState testManager testQueue (clock_at testNow) (900 * time_Second) ''unittest''
       InProgress_filter
     = Inr \<lparr>JobReportIDs_Filter = InProgress_filter, JobReportIDs_Type = ''unittest'',
            JobReportIDs_IDs = [''C'']\<rparr>
   \<and> map_option (\<lambda>job. Name (Type job)) (Get (queue testManager) testQueue ''C'')
       = Some ''cleanup''
   \<and> Get (queue testManager) testQueue_vanished ''D'' = None
   \<and> JobIDsByState testManager testQueue_vanished (clock_at testNow) (900 * time_Second) ''unittest''
        Pending
       = Inl NilDereference"
  by code_simp

text \<open>
  C2. \<^verbatim>\<open>CompleteJobsByType\<close> calls \<^verbatim>\<open>Complete\<close> on a job whose lookup failed: job
  \<open>D\<close> is not completed and has left the queue, and the one call of \<^verbatim>\<open>Complete\<close> that
  \<^verbatim>\<open>CompleteJobsByType("unittest")\<close> makes is on the nil job. The call returns no error.
\<close>

theorem CompleteJobsByType_completes_absent_handle:
  "Get memQueue_ops testQueue_vanished ''D'' = None
   \<and> CompleteJobsByType (NewQueueManager (recording memQueue_ops)) (testQueue_vanished, [])
         ''unittest''
       = (None, (testQueue_vanished, [None]))"
  by code_simp

text \<open>
  C3. The average of a bucket is the integer quotient of \<open>totalErrors\<close> by \<open>count\<close>,
  converted to a float afterwards: the two failed jobs of type \<open>lint\<close> have three
  errors between them, and their average is reported as \<open>1\<close>, not as \<open>3 / 2\<close>.
\<close>

theorem RecentErrors_average_is_truncated:
  "RecentErrors testManager testQueue (clock_at testNow) (60 * time_Second) StatsOnly
     = Inr \<lparr>JobErrorsReport_Period = 60 * time_Second, JobErrorsReport_FilteredByType = False,
            JobErrorsReport_Data =
              [\<lparr>JobErrorsForType_ID = ''unittest'', JobErrorsForType_Count = 2,
                JobErrorsForType_Total = 4, JobErrorsForType_Average = 2,
                JobErrorsForType_Errors = []\<rparr>,
               \<lparr>JobErrorsForType_ID = ''lint'', JobErrorsForType_Count = 2,
                JobErrorsForType_Total = 3, JobErrorsForType_Average = 1,
                JobErrorsForType_Errors = []\<rparr>]\<rparr>
   \<and> (1 :: real) \<noteq> 3 / 2"
  by code_simp

end
